theory Spec2Isabelle
  imports Main
begin

section \<open>Errors and formatted text\<close>

text \<open>
  A Go \<open>error\<close> value is modelled by the way the importer builds it: the error of a
  cancelled or expired context (\<open>ctx.Err()\<close>), an error handed back by a collaborator
  outside the importer, \<open>errors.Errorf(format, args)\<close> and \<open>errors.Wrapf(err, format, args)\<close>.
  The format string and its arguments are kept apart, as they are written in the source,
  so that no property depends on how the \<open>%q\<close> verb escapes a string. A \<open>nil\<close> error
  is \<open>None\<close> of \<open>error option\<close>.
\<close>

datatype ctx_err = Canceled | DeadlineExceeded

datatype error =
    CtxErr ctx_err
  | External string
  | Errorf string "string list"
  | Wrapf error string "string list"

abbreviation Wrap :: "error \<Rightarrow> string \<Rightarrow> error" where
  "Wrap err msg \<equiv> Wrapf err msg []"



section \<open>Kinds, resources and their conditions\<close>

record GroupKind =
  Group :: string
  Kind :: string

text \<open>\<open>schema.GroupKind.String\<close>: the kind alone when the group is empty.\<close>

definition GroupKind_String :: "GroupKind \<Rightarrow> string" where
  "GroupKind_String gk = (if Group gk = [] then Kind gk else Kind gk @ ''.'' @ Group gk)"

record GroupVersionResource =
  ResGroup :: string
  ResVersion :: string
  Resource :: string


record Condition =
  Type :: string
  Status :: string

text \<open>
  Reading \<open>status\<close> out of a listed object with \<open>paved.GetValueInto\<close> gives an error,
  a not-found error (which the waiter ignores, leaving the status empty), or the
  conditions of the object.
\<close>

datatype status_read =
    StatusErr error
  | StatusNotFound
  | StatusValue "Condition list"

record resource =
  Name :: string
  status :: status_read

text \<open>
  \<open>ConditionedStatus.GetCondition\<close>: the first condition of the given type, and a
  condition of status \<open>Unknown\<close> when there is none.
\<close>

fun GetCondition :: "Condition list \<Rightarrow> string \<Rightarrow> Condition" where
  "GetCondition [] ct = \<lparr>Type = ct, Status = ''Unknown''\<rparr>"
| "GetCondition (c # cs) ct = (if Type c = ct then c else GetCondition cs ct)"

section \<open>printConditions\<close>

fun join :: "string list \<Rightarrow> string \<Rightarrow> string" where
  "join [] sep = []"
| "join [s] sep = s"
| "join (s # ss) sep = s @ sep @ join ss sep"

fun printConditions :: "string list \<Rightarrow> string" where
  "printConditions [] = []"
| "printConditions [c] = c"
| "printConditions [c0, c1] = c0 @ '' and '' @ c1"
| "printConditions cs = join (butlast cs) '', '' @ '', and '' @ last cs"

section \<open>One poll of waitForConditions\<close>

text \<open>
  The inner loop over the requested conditions: it stops at the first condition whose
  status is not \<open>True\<close>, so that a resource is counted once.
\<close>

fun condition_unmet :: "Condition list \<Rightarrow> string list \<Rightarrow> bool" where
  "condition_unmet st [] = False"
| "condition_unmet st (c # cs) =
     (if Status (GetCondition st c) \<noteq> ''True'' then True else condition_unmet st cs)"

text \<open>
  The loop over the listed items, with the counter \<open>unmet\<close>. A status that cannot be
  read ends the poll (\<open>Inl\<close>, with the name of the resource and the error).
\<close>

fun count_unmet :: "resource list \<Rightarrow> string list \<Rightarrow> nat \<Rightarrow> (string \<times> error) + nat" where
  "count_unmet [] conds unmet = Inr unmet"
| "count_unmet (r # rs) conds unmet =
     (case status r of
        StatusErr err \<Rightarrow> Inl (Name r, err)
      | StatusNotFound \<Rightarrow>
          count_unmet rs conds (if condition_unmet [] conds then unmet + 1 else unmet)
      | StatusValue st \<Rightarrow>
          count_unmet rs conds (if condition_unmet st conds then unmet + 1 else unmet))"

text \<open>
  What one run of the polled closure did: it printed the list error and returned, it
  printed a status error and returned, it updated the spinner with the unmet and total
  counts and returned, or it set \<open>success\<close> and cancelled the context.
\<close>

datatype poll_outcome =
    ListFailed error
  | StatusFailed string error
  | Unmet nat nat
  | AllMet

definition poll :: "(error + resource list) \<Rightarrow> string list \<Rightarrow> poll_outcome" where
  "poll listed conds =
     (case listed of
        Inl err \<Rightarrow> ListFailed err
      | Inr items \<Rightarrow>
          (case count_unmet items conds 0 of
             Inl (n, err) \<Rightarrow> StatusFailed n err
           | Inr unmet \<Rightarrow> if unmet > 0 then Unmet unmet (length items) else AllMet))"


section \<open>The polling loop\<close>

text \<open>
  Time is a natural number of nanoseconds, as in \<open>time.Duration\<close>. The live system seen
  by one call of \<open>waitForConditions\<close>: the answer of the REST mapper, what \<open>List\<close>
  returns to a poll started at a given time, how long that poll takes, the time of the
  call, and the time at which the caller's context is done (cancelled or expired), if
  ever.
\<close>

record wait_env =
  rest_mapping :: "GroupKind \<Rightarrow> error + GroupVersionResource"
  list_at :: "GroupVersionResource \<Rightarrow> nat \<Rightarrow> error + resource list"
  poll_dur :: "nat \<Rightarrow> nat"
  start :: nat
  parent_done :: "nat option"

definition second :: nat where
  "second = 1000000000"

definition timeout :: nat where
  "timeout = 10 * (60 * second)"

definition period :: nat where
  "period = 5 * second"

text \<open>
  \<open>context.WithTimeout(ctx, timeout)\<close>: the derived context is done at its deadline or
  when the caller's context is done, whichever comes first.
\<close>

definition done_time :: "wait_env \<Rightarrow> nat" where
  "done_time w =
     (case parent_done w of
        None \<Rightarrow> start w + timeout
      | Some c \<Rightarrow> min c (start w + timeout))"

definition ctx_done :: "wait_env \<Rightarrow> nat \<Rightarrow> bool" where
  "ctx_done w t = (done_time w \<le> t)"

record wait_run =
  succeeded :: bool
  finished :: nat
  polls :: "(nat \<times> poll_outcome) list"

text \<open>
  \<open>wait.UntilWithContext(ctx, f, period)\<close> of the Kubernetes library, with the closure
  of \<open>waitForConditions\<close> as \<open>f\<close>. Each round: return if the context is done; run
  \<open>f\<close>; then start the timer of one period and wait for the timer or for the context,
  returning in the second case. The closure that finds nothing unmet sets \<open>success\<close> and
  cancels the context, so the loop returns as soon as that poll ends. The result records
  the flag \<open>success\<close>, the time of return and every poll with its starting time.
\<close>

function until_with_context :: "wait_env \<Rightarrow> (nat \<Rightarrow> poll_outcome) \<Rightarrow> nat \<Rightarrow> wait_run" where
  "until_with_context w f now =
     (if ctx_done w now then \<lparr>succeeded = False, finished = now, polls = []\<rparr>
      else if f now = AllMet then
        \<lparr>succeeded = True, finished = now + poll_dur w now, polls = [(now, AllMet)]\<rparr>
      else if ctx_done w (now + poll_dur w now + period) then
        \<lparr>succeeded = False, finished = max (now + poll_dur w now) (done_time w),
         polls = [(now, f now)]\<rparr>
      else
        (let run = until_with_context w f (now + poll_dur w now + period)
         in run\<lparr>polls := (now, f now) # polls run\<rparr>))"
  by pat_completeness auto
termination
  by (relation "measure (\<lambda>(w, f, now). done_time w - now)")
     (auto simp: ctx_done_def period_def second_def)

section \<open>waitForConditions\<close>

definition no_run :: "wait_env \<Rightarrow> wait_run" where
  "no_run w = \<lparr>succeeded = False, finished = start w, polls = []\<rparr>"

definition waitForConditions ::
  "wait_env \<Rightarrow> GroupKind \<Rightarrow> string list \<Rightarrow> error option \<times> wait_run" where
  "waitForConditions w gk conditions =
     (case rest_mapping w gk of
        Inl err \<Rightarrow>
          (Some (Wrapf err ''cannot get REST mapping for %q'' [GroupKind_String gk]), no_run w)
      | Inr rm \<Rightarrow>
          (let run = until_with_context w (\<lambda>t. poll (list_at w rm t) conditions) (start w)
           in if \<not> succeeded run then
                (Some (Errorf ''timeout waiting for conditions %q to be satisfied for all %q''
                         [printConditions conditions, Kind gk]), run)
              else (None, run)))"


section \<open>The importer and its collaborators\<close>

definition baseResources :: "string list" where
  "baseResources =
     [''namespaces'',
      ''configmaps'',
      ''secrets'',
      ''controllerconfigs.pkg.crossplane.io'',
      ''deploymentruntimeconfigs.pkg.crossplane.io'',
      ''storeconfigs.secrets.crossplane.io'',
      ''compositionrevisions.apiextensions.crossplane.io'',
      ''compositions.apiextensions.crossplane.io'',
      ''compositeresourcedefinitions.apiextensions.crossplane.io'',
      ''providers.pkg.crossplane.io'',
      ''functions.pkg.crossplane.io'',
      ''configurations.pkg.crossplane.io'']"

record Options =
  InputArchive :: string
  UnpauseAfterImport :: bool

text \<open>
  The part of \<open>ControlPlaneStateImporter\<close> that a call can change is the field \<open>fs\<close>:
  \<open>None\<close> is the \<open>nil\<close> pointer, \<open>Some f\<close> an in-memory file system \<open>f\<close>. The clients
  and the mapper are collaborators; their answers are fields of the environment below.
\<close>

record 'fs ControlPlaneStateImporter =
  fs :: "'fs option"
  options :: Options

text \<open>
  What \<open>tr.Next()\<close> returns, entry after entry: an error, or a header with its name,
  whether it is a directory, and the bytes that follow it. The end of the list is
  \<open>io.EOF\<close>.
\<close>

datatype tar_next =
    NextErr error
  | Header string bool string

record CrossplaneInfo =
  Version :: string
  FeatureFlags :: "string list"

record ExportMeta =
  Crossplane :: CrossplaneInfo

text \<open>The mutation handed to the category modifier.\<close>

datatype mutation = RemoveAnnotations string

text \<open>
  The collaborators of the importer, each as the function of its arguments that gives
  its answer: the operating system and the gzip reader, the caller's context as the
  extraction loop sees it at its \<open>k\<close>-th check, the in-memory file system of type
  \<open>'fs\<close>, the YAML decoder, \<open>crossplane.CollectInfo\<close>, the pausing resource importer,
  the live system seen by the condition waiter for each kind, and the category modifier.
\<close>

record 'fs env =
  os_open :: "string \<Rightarrow> error + string"
  gzip_new_reader :: "string \<Rightarrow> error + tar_next list"
  ctx_err_at :: "nat \<Rightarrow> ctx_err option"
  new_mem_fs :: 'fs
  fs_mkdir :: "'fs \<Rightarrow> string \<Rightarrow> error + 'fs"
  fs_open_file :: "'fs \<Rightarrow> string \<Rightarrow> error + 'fs"
  io_copy :: "'fs \<Rightarrow> string \<Rightarrow> string \<Rightarrow> error + 'fs"
  fs_read_file :: "'fs \<Rightarrow> string \<Rightarrow> error + string"
  fs_read_dir :: "'fs \<Rightarrow> string \<Rightarrow> error + (string \<times> bool) list"
  yaml_unmarshal :: "string \<Rightarrow> error + ExportMeta"
  collect_info :: "error + CrossplaneInfo"
  import_resources :: "'fs \<Rightarrow> string \<Rightarrow> bool \<Rightarrow> error + nat"
  wait_world :: "GroupKind \<Rightarrow> wait_env"
  modify_resources :: "string \<Rightarrow> mutation \<Rightarrow> error + nat"

text \<open>
  The calls a run makes on its collaborators, in order. Progress messages of the spinner
  and the counts they show are not recorded.
\<close>

datatype event =
    Unarchive
  | ImportResources string bool
  | WaitForConditions GroupKind "string list"
  | MapperReset
  | ReadDir string
  | ModifyResources string mutation

section \<open>unarchive\<close>

text \<open>
  The loop of \<open>unarchive\<close>, at its \<open>k\<close>-th round: the context is checked first, then
  the next entry is read and written to the file system.
\<close>

fun extract_entries ::
  "'fs env \<Rightarrow> string \<Rightarrow> nat \<Rightarrow> tar_next list \<Rightarrow> 'fs \<Rightarrow> error option \<times> 'fs" where
  "extract_entries e archive k entries f =
     (case ctx_err_at e k of
        Some ce \<Rightarrow> (Some (CtxErr ce), f)
      | None \<Rightarrow>
          (case entries of
             [] \<Rightarrow> (None, f)
           | NextErr err # rest \<Rightarrow> (Some (Wrapf err ''cannot read archive %q'' [archive]), f)
           | Header name is_dir bytes # rest \<Rightarrow>
               (if is_dir then
                  (case fs_mkdir e f name of
                     Inl err \<Rightarrow> (Some (Wrapf err ''cannot create directory %q'' [name]), f)
                   | Inr f' \<Rightarrow> extract_entries e archive (k + 1) rest f')
                else
                  (case fs_open_file e f name of
                     Inl err \<Rightarrow> (Some (Wrapf err ''cannot create file %q'' [name]), f)
                   | Inr f' \<Rightarrow>
                       (case io_copy e f' name bytes of
                          Inl err \<Rightarrow> (Some (Wrapf err ''cannot write file %q'' [name]), f')
                        | Inr f'' \<Rightarrow> extract_entries e archive (k + 1) rest f'')))))"

definition unarchive :: "'fs env \<Rightarrow> Options \<Rightarrow> 'fs \<Rightarrow> error option \<times> 'fs" where
  "unarchive e opts f =
     (case os_open e (InputArchive opts) of
        Inl err \<Rightarrow> (Some (Wrapf err ''cannot open archive %q'' [InputArchive opts]), f)
      | Inr g \<Rightarrow>
          (case gzip_new_reader e g of
             Inl err \<Rightarrow>
               (Some (Wrapf err ''cannot create gzip reader for %q'' [InputArchive opts]), f)
           | Inr tr \<Rightarrow> extract_entries e (InputArchive opts) 0 tr f))"

section \<open>PreflightChecks\<close>

fun contains :: "string list \<Rightarrow> string \<Rightarrow> bool" where
  "contains [] s = False"
| "contains (v # ss) s = (if v = s then True else contains ss s)"

text \<open>The loop over the exported feature flags, appending one error per missing flag.\<close>

definition flag_not_set :: "string \<Rightarrow> error" where
  "flag_not_set ff =
     Errorf (''Feature flag %q was set in the exported control plane but is not set '' @
             ''in the target control plane for import.'') [ff]"

definition version_mismatch :: "string \<Rightarrow> string \<Rightarrow> error" where
  "version_mismatch observed exported =
     Errorf ''Crossplane version %q does not match exported version %q'' [observed, exported]"

fun missing_flags :: "string list \<Rightarrow> string list \<Rightarrow> error list" where
  "missing_flags [] observed = []"
| "missing_flags (ff # ffs) observed =
     (if \<not> contains observed ff then [flag_not_set ff] else []) @ missing_flags ffs observed"

definition compare_info :: "CrossplaneInfo \<Rightarrow> CrossplaneInfo \<Rightarrow> error list" where
  "compare_info observed exported =
     (if Version observed \<noteq> Version exported then
        [version_mismatch (Version observed) (Version exported)]
      else []) @ missing_flags (FeatureFlags exported) (FeatureFlags observed)"

text \<open>The part of \<open>PreflightChecks\<close> after the state is in memory.\<close>

definition check_meta :: "'fs env \<Rightarrow> CrossplaneInfo \<Rightarrow> 'fs \<Rightarrow> error list" where
  "check_meta e observed f =
     (case fs_read_file e f ''export.yaml'' of
        Inl err \<Rightarrow> [Wrap err ''Cannot read export metadata'']
      | Inr b \<Rightarrow>
          (case yaml_unmarshal e b of
             Inl err \<Rightarrow> [Wrap err ''Cannot unmarshal export metadata'']
           | Inr em \<Rightarrow> compare_info observed (Crossplane em)))"

definition PreflightChecks ::
  "'fs env \<Rightarrow> 'fs ControlPlaneStateImporter \<Rightarrow>
     error list \<times> event list \<times> 'fs ControlPlaneStateImporter" where
  "PreflightChecks e im =
     (case collect_info e of
        Inl err \<Rightarrow> ([Wrap err ''Cannot get Crossplane info''], [], im)
      | Inr observed \<Rightarrow>
          (case fs im of
             None \<Rightarrow>
               (case unarchive e (options im) (new_mem_fs e) of
                  (Some err, f) \<Rightarrow>
                    ([Wrap err ''Cannot unarchive export archive''], [Unarchive],
                     im\<lparr>fs := Some f\<rparr>)
                | (None, f) \<Rightarrow> (check_meta e observed f, [Unarchive], im\<lparr>fs := Some f\<rparr>))
           | Some f \<Rightarrow> (check_meta e observed f, [], im)))"

section \<open>Import\<close>

text \<open>
  A phase gives its error, if any, and the calls it made. \<open>and_then\<close> is the early
  return of the source: the second phase runs only when the first gave no error.
\<close>

type_synonym phase = "error option \<times> event list"

definition and_then :: "phase \<Rightarrow> phase \<Rightarrow> phase" where
  "and_then a b = (case fst a of Some err \<Rightarrow> a | None \<Rightarrow> (fst b, snd a @ snd b))"

definition isBaseResource :: "string \<Rightarrow> bool" where
  "isBaseResource gr = contains baseResources gr"

fun import_base :: "'fs env \<Rightarrow> 'fs \<Rightarrow> string list \<Rightarrow> phase" where
  "import_base e f [] = (None, [])"
| "import_base e f (gr # grs) =
     (case import_resources e f gr False of
        Inl err \<Rightarrow>
          (Some (Wrapf err ''cannot import %q resources'' [gr]), [ImportResources gr False])
      | Inr count \<Rightarrow> and_then (None, [ImportResources gr False]) (import_base e f grs))"

definition xrd :: GroupKind where
  "xrd = \<lparr>Group = ''apiextensions.crossplane.io'', Kind = ''CompositeResourceDefinition''\<rparr>"

definition packages :: "GroupKind list" where
  "packages =
     [\<lparr>Group = ''pkg.crossplane.io'', Kind = ''Provider''\<rparr>,
      \<lparr>Group = ''pkg.crossplane.io'', Kind = ''Function''\<rparr>,
      \<lparr>Group = ''pkg.crossplane.io'', Kind = ''Configuration''\<rparr>]"

definition revisions :: "GroupKind list" where
  "revisions =
     [\<lparr>Group = ''pkg.crossplane.io'', Kind = ''ProviderRevision''\<rparr>,
      \<lparr>Group = ''pkg.crossplane.io'', Kind = ''FunctionRevision''\<rparr>,
      \<lparr>Group = ''pkg.crossplane.io'', Kind = ''ConfigurationRevision''\<rparr>]"

definition wait_xrds :: "'fs env \<Rightarrow> phase" where
  "wait_xrds e =
     (case fst (waitForConditions (wait_world e xrd) xrd [''Established'']) of
        Some err \<Rightarrow>
          (Some (Wrap err ''there are unhealthy CompositeResourceDefinitions''),
           [WaitForConditions xrd [''Established'']])
      | None \<Rightarrow> (None, [WaitForConditions xrd [''Established'']]))"

fun wait_each :: "'fs env \<Rightarrow> GroupKind list \<Rightarrow> string list \<Rightarrow> phase" where
  "wait_each e [] conds = (None, [])"
| "wait_each e (k # ks) conds =
     (case fst (waitForConditions (wait_world e k) k conds) of
        Some err \<Rightarrow>
          (Some (Wrapf err ''there are unhealthy %qs'' [Kind k]), [WaitForConditions k conds])
      | None \<Rightarrow> and_then (None, [WaitForConditions k conds]) (wait_each e ks conds))"

text \<open>The loop over the entries of the root directory, each a name and whether it is a directory.\<close>

fun import_remaining :: "'fs env \<Rightarrow> 'fs \<Rightarrow> (string \<times> bool) list \<Rightarrow> phase" where
  "import_remaining e f [] = (None, [])"
| "import_remaining e f ((name, is_dir) # grs) =
     (if name = ''export.yaml'' then import_remaining e f grs
      else if \<not> is_dir then
        (Some (Errorf ''unexpected file %q in root directory of exported state'' [name]), [])
      else if isBaseResource name then import_remaining e f grs
      else
        (case import_resources e f name True of
           Inl err \<Rightarrow>
             (Some (Wrapf err ''cannot import %q resources'' [name]), [ImportResources name True])
         | Inr count \<Rightarrow> and_then (None, [ImportResources name True]) (import_remaining e f grs)))"

definition import_rest :: "'fs env \<Rightarrow> 'fs \<Rightarrow> phase" where
  "import_rest e f =
     (case fs_read_dir e f ''/'' of
        Inl err \<Rightarrow> (Some (Wrap err ''cannot list group resources''), [ReadDir ''/''])
      | Inr grs \<Rightarrow> and_then (None, [ReadDir ''/'']) (import_remaining e f grs))"

definition unpause :: mutation where
  "unpause = RemoveAnnotations ''crossplane.io/paused''"

definition finalize :: "'fs env \<Rightarrow> Options \<Rightarrow> phase" where
  "finalize e opts =
     (case modify_resources e ''composite'' unpause of
        Inl err \<Rightarrow>
          (Some (Wrap err ''cannot unpause composites''), [ModifyResources ''composite'' unpause])
      | Inr n \<Rightarrow>
          (case modify_resources e ''claim'' unpause of
             Inl err \<Rightarrow>
               (Some (Wrap err ''cannot unpause claims''),
                [ModifyResources ''composite'' unpause, ModifyResources ''claim'' unpause])
           | Inr n' \<Rightarrow>
               (if UnpauseAfterImport opts then
                  (case modify_resources e ''managed'' unpause of
                     Inl err \<Rightarrow>
                       (Some (Wrap err ''cannot unpause managed resources''),
                        [ModifyResources ''composite'' unpause, ModifyResources ''claim'' unpause,
                         ModifyResources ''managed'' unpause])
                   | Inr n'' \<Rightarrow>
                       (None,
                        [ModifyResources ''composite'' unpause, ModifyResources ''claim'' unpause,
                         ModifyResources ''managed'' unpause]))
                else
                  (None,
                   [ModifyResources ''composite'' unpause, ModifyResources ''claim'' unpause]))))"

text \<open>The waits between the base resources and the rest, in the order of the source.\<close>

definition wait_ready :: "'fs env \<Rightarrow> phase" where
  "wait_ready e =
     and_then (wait_xrds e)
    (and_then (wait_each e packages [''Installed'', ''Healthy''])
              (wait_each e revisions [''Healthy'']))"

text \<open>Everything \<open>Import\<close> does once the state is in the file system \<open>f\<close>.\<close>

definition import_state :: "'fs env \<Rightarrow> Options \<Rightarrow> 'fs \<Rightarrow> phase" where
  "import_state e opts f =
     and_then (import_base e f baseResources)
    (and_then (wait_ready e)
    (and_then (None, [MapperReset])
    (and_then (import_rest e f)
              (finalize e opts))))"

definition Import ::
  "'fs env \<Rightarrow> 'fs ControlPlaneStateImporter \<Rightarrow>
     error option \<times> event list \<times> 'fs ControlPlaneStateImporter" where
  "Import e im =
     (case fs im of
        None \<Rightarrow>
          (case unarchive e (options im) (new_mem_fs e) of
             (Some err, f) \<Rightarrow>
               (Some (Wrap err ''cannot unarchive export archive''), [Unarchive],
                im\<lparr>fs := Some f\<rparr>)
           | (None, f) \<Rightarrow>
               (fst (import_state e (options im) f),
                Unarchive # snd (import_state e (options im) f),
                im\<lparr>fs := Some f\<rparr>))
      | Some f \<Rightarrow>
          (fst (import_state e (options im) f), snd (import_state e (options im) f), im))"

section \<open>Order of calls in a run\<close>

text \<open>
  \<open>precedes a b tr\<close>: the call \<open>b\<close> is not made in the run \<open>tr\<close> before the call \<open>a\<close> has
  been made.
\<close>

fun precedes :: "'a \<Rightarrow> 'a \<Rightarrow> 'a list \<Rightarrow> bool" where
  "precedes a b [] = True"
| "precedes a b (x # xs) = (x = a \<or> (x \<noteq> b \<and> precedes a b xs))"

text \<open>The seven condition waits of \<open>Import\<close>, in order.\<close>

definition condition_waits :: "(GroupKind \<times> string list) list" where
  "condition_waits =
     (xrd, [''Established'']) #
     map (\<lambda>k. (k, [''Installed'', ''Healthy''])) packages @
     map (\<lambda>k. (k, [''Healthy''])) revisions"

section \<open>Example worlds\<close>

text \<open>Concrete environments on which the theorems below are evaluated.\<close>

definition provider :: GroupKind where
  "provider = \<lparr>Group = ''pkg.crossplane.io'', Kind = ''Provider''\<rparr>"

definition providers_gvr :: GroupVersionResource where
  "providers_gvr = \<lparr>ResGroup = ''pkg.crossplane.io'', ResVersion = ''v1'', Resource = ''providers''\<rparr>"


definition unhealthy_item :: resource where
  "unhealthy_item =
     \<lparr>Name = ''provider-b'',
      status = StatusValue [\<lparr>Type = ''Installed'', Status = ''True''\<rparr>,
                            \<lparr>Type = ''Healthy'', Status = ''False''\<rparr>]\<rparr>"

text \<open>Nothing is listed, polls take no time, the caller never cancels.\<close>

definition empty_world :: wait_env where
  "empty_world =
     \<lparr>rest_mapping = (\<lambda>gk. Inr providers_gvr), list_at = (\<lambda>rm t. Inr []),
      poll_dur = (\<lambda>t. 0), start = 0, parent_done = None\<rparr>"



text \<open>One provider is not healthy, and the caller cancels after seven seconds.\<close>

definition cancelled_world :: wait_env where
  "cancelled_world =
     \<lparr>rest_mapping = (\<lambda>gk. Inr providers_gvr), list_at = (\<lambda>rm t. Inr [unhealthy_item]),
      poll_dur = (\<lambda>t. 0), start = 0, parent_done = Some (7 * second)\<rparr>"

text \<open>A provider without a status field and one that is not healthy are listed.\<close>

definition unknown_item :: resource where
  "unknown_item = \<lparr>Name = ''provider-c'', status = StatusNotFound\<rparr>"

definition unknown_world :: wait_env where
  "unknown_world =
     \<lparr>rest_mapping = (\<lambda>gk. Inr providers_gvr),
      list_at = (\<lambda>rm t. Inr [unknown_item, unhealthy_item]),
      poll_dur = (\<lambda>t. 0), start = 0, parent_done = None\<rparr>"

text \<open>
  A toy file system: the entries in the order of their creation, each with its name,
  whether it is a directory, and its bytes.
\<close>

type_synonym toy_fs = "(string \<times> bool \<times> string) list"

definition toy_archive :: "tar_next list" where
  "toy_archive =
     [Header ''export.yaml'' False ''crossplane: ...'',
      Header ''namespaces'' True [],
      Header ''widgets.example.io'' True []]"

text \<open>
  An environment in which everything succeeds at once: the archive holds the metadata,
  one base group and one other group; the target runs the exported version with flag
  \<open>A\<close> of the exported flags \<open>A\<close> and \<open>B\<close>; nothing is listed by the condition waiter.
\<close>

definition demo_env :: "toy_fs env" where
  "demo_env =
     \<lparr>os_open = (\<lambda>path. Inr ''gzip''),
      gzip_new_reader = (\<lambda>g. Inr toy_archive),
      ctx_err_at = (\<lambda>k. None),
      new_mem_fs = [],
      fs_mkdir = (\<lambda>f name. Inr (f @ [(name, True, [])])),
      fs_open_file = (\<lambda>f name. Inr (f @ [(name, False, [])])),
      io_copy = (\<lambda>f name bytes.
         Inr (map (\<lambda>(n, d, b). if n = name then (n, d, bytes) else (n, d, b)) f)),
      fs_read_file = (\<lambda>f name.
         case map_of f name of
           None \<Rightarrow> Inl (External ''file does not exist'')
         | Some (d, b) \<Rightarrow> Inr b),
      fs_read_dir = (\<lambda>f path. Inr (map (\<lambda>(n, d, b). (n, d)) f)),
      yaml_unmarshal = (\<lambda>b.
         Inr \<lparr>Crossplane = \<lparr>Version = ''1.14.0'', FeatureFlags = [''A'', ''B'']\<rparr>\<rparr>),
      collect_info = Inr \<lparr>Version = ''1.14.0'', FeatureFlags = [''A'']\<rparr>,
      import_resources = (\<lambda>f gr pause. Inr 1),
      wait_world = (\<lambda>gk. empty_world),
      modify_resources = (\<lambda>category m. Inr 0)\<rparr>"

definition demo_importer :: "toy_fs ControlPlaneStateImporter" where
  "demo_importer =
     \<lparr>fs = None, options = \<lparr>InputArchive = ''xp-state.tar.gz'', UnpauseAfterImport = True\<rparr>\<rparr>"

definition demo_fs :: toy_fs where
  "demo_fs =
     [(''export.yaml'', False, ''crossplane: ...''),
      (''namespaces'', True, []),
      (''widgets.example.io'', True, [])]"

definition demo_trace :: "event list" where
  "demo_trace =
     map (\<lambda>g. ImportResources g False) baseResources @
     map (\<lambda>(gk, cs). WaitForConditions gk cs) condition_waits @
     [MapperReset, ReadDir ''/'', ImportResources ''widgets.example.io'' True,
      ModifyResources ''composite'' unpause, ModifyResources ''claim'' unpause,
      ModifyResources ''managed'' unpause]"

text \<open>The REST mapper does not know the kinds that are waited for.\<close>

definition unmapped_env :: "toy_fs env" where
  "unmapped_env =
     demo_env\<lparr>wait_world :=
       (\<lambda>gk. empty_world\<lparr>rest_mapping := (\<lambda>k. Inl (External ''no matches for kind''))\<rparr>)\<rparr>"

text \<open>Applying the resources of the group \<open>gadgets.example.io\<close> fails.\<close>

definition denied_env :: "toy_fs env" where
  "denied_env =
     demo_env\<lparr>import_resources :=
       (\<lambda>f gr pause. if gr = ''gadgets.example.io'' then Inl (External ''denied'') else Inr 1)\<rparr>"

definition gadgets_fs :: toy_fs where
  "gadgets_fs =
     [(''export.yaml'', False, ''crossplane: ...''),
      (''gadgets.example.io'', True, []),
      (''widgets.example.io'', True, [])]"

definition gadgets_importer :: "toy_fs ControlPlaneStateImporter" where
  "gadgets_importer =
     \<lparr>fs = Some gadgets_fs,
      options = \<lparr>InputArchive = ''xp-state.tar.gz'', UnpauseAfterImport = True\<rparr>\<rparr>"

text \<open>The category modifier fails on the composites.\<close>

definition forbidden_env :: "toy_fs env" where
  "forbidden_env =
     demo_env\<lparr>modify_resources :=
       (\<lambda>category m. if category = ''composite'' then Inl (External ''forbidden'') else Inr 0)\<rparr>"

text \<open>The target cannot be asked for its version and flags; the exported state is readable.\<close>

definition no_info_env :: "toy_fs env" where
  "no_info_env = demo_env\<lparr>collect_info := Inl (External ''deployments.apps is forbidden'')\<rparr>"





text \<open>
  Whether a call of a run came back with an error, given the options of the run and the
  file system \<open>f\<close> it works on.
\<close>

fun call_failed :: "'fs env \<Rightarrow> Options \<Rightarrow> 'fs \<Rightarrow> event \<Rightarrow> bool" where
  "call_failed e opts f Unarchive = (fst (unarchive e opts (new_mem_fs e)) \<noteq> None)"
| "call_failed e opts f (ImportResources g p) = isl (import_resources e f g p)"
| "call_failed e opts f (WaitForConditions gk cs) =
     (fst (waitForConditions (wait_world e gk) gk cs) \<noteq> None)"
| "call_failed e opts f MapperReset = False"
| "call_failed e opts f (ReadDir path) = isl (fs_read_dir e f path)"
| "call_failed e opts f (ModifyResources c m) = isl (modify_resources e c m)"

text \<open>
  A phase stops at a failure when no call but its last one failed, and no call at all
  failed when the phase gives no error.
\<close>

definition stops_at_failure :: "(event \<Rightarrow> bool) \<Rightarrow> phase \<Rightarrow> bool" where
  "stops_at_failure failed p \<longleftrightarrow>
     (\<forall>ev\<in>set (butlast (snd p)). \<not> failed ev) \<and>
     (fst p = None \<longrightarrow> (\<forall>ev\<in>set (snd p). \<not> failed ev))"

section \<open>Properties of the polling loop\<close>

declare until_with_context.simps [simp del]

abbreviation next_tick :: "wait_env \<Rightarrow> nat \<Rightarrow> nat" where
  "next_tick w now \<equiv> now + poll_dur w now + period"

lemma until_done:
  "ctx_done w now \<Longrightarrow>
     until_with_context w f now = \<lparr>succeeded = False, finished = now, polls = []\<rparr>"
  by (subst until_with_context.simps) simp

lemma until_allmet:
  "\<not> ctx_done w now \<Longrightarrow> f now = AllMet \<Longrightarrow>
     until_with_context w f now =
       \<lparr>succeeded = True, finished = now + poll_dur w now, polls = [(now, AllMet)]\<rparr>"
  by (subst until_with_context.simps) simp

lemma until_stop:
  "\<not> ctx_done w now \<Longrightarrow> f now \<noteq> AllMet \<Longrightarrow> ctx_done w (next_tick w now) \<Longrightarrow>
     until_with_context w f now =
       \<lparr>succeeded = False, finished = max (now + poll_dur w now) (done_time w),
        polls = [(now, f now)]\<rparr>"
  by (subst until_with_context.simps) simp

lemma until_next:
  "\<not> ctx_done w now \<Longrightarrow> f now \<noteq> AllMet \<Longrightarrow> \<not> ctx_done w (next_tick w now) \<Longrightarrow>
     until_with_context w f now =
       (until_with_context w f (next_tick w now))
         \<lparr>polls := (now, f now) # polls (until_with_context w f (next_tick w now))\<rparr>"
  by (subst until_with_context.simps) (simp add: Let_def)

lemma until_cases [case_names over met stop again]:
  assumes "ctx_done w now \<Longrightarrow> P"
    and "\<not> ctx_done w now \<Longrightarrow> f now = AllMet \<Longrightarrow> P"
    and "\<not> ctx_done w now \<Longrightarrow> f now \<noteq> AllMet \<Longrightarrow> ctx_done w (next_tick w now) \<Longrightarrow> P"
    and "\<not> ctx_done w now \<Longrightarrow> f now \<noteq> AllMet \<Longrightarrow> \<not> ctx_done w (next_tick w now) \<Longrightarrow> P"
  shows P
  using assms by blast

lemma ctx_done_mono: "ctx_done w s \<Longrightarrow> s \<le> t \<Longrightarrow> ctx_done w t"
  by (simp add: ctx_done_def)

lemma polls_sound:
  "(t, r) \<in> set (polls (until_with_context w f now)) \<Longrightarrow>
     r = f t \<and> now \<le> t \<and> \<not> ctx_done w t"
proof (induction w f now rule: until_with_context.induct)
  case (1 w f now)
  show ?case
  proof (cases rule: until_cases [where w=w and now=now and f=f])
    case over
    with "1.prems" show ?thesis by (simp add: until_done)
  next
    case met
    with "1.prems" show ?thesis by (simp add: until_allmet)
  next
    case stop
    with "1.prems" show ?thesis by (simp add: until_stop)
  next
    case again
    with "1.prems" have "(t, r) = (now, f now) \<or>
        (t, r) \<in> set (polls (until_with_context w f (next_tick w now)))"
      by (simp add: until_next)
    then show ?thesis
    proof
      assume "(t, r) = (now, f now)"
      with again show ?thesis by simp
    next
      assume "(t, r) \<in> set (polls (until_with_context w f (next_tick w now)))"
      with "1.IH" again have "r = f t \<and> next_tick w now \<le> t \<and> \<not> ctx_done w t"
        by simp
      then show ?thesis by simp
    qed
  qed
qed

lemma allmet_is_last:
  "(t, AllMet) \<in> set (polls (until_with_context w f now)) \<Longrightarrow>
     succeeded (until_with_context w f now) \<and>
     finished (until_with_context w f now) = t + poll_dur w t \<and>
     last (polls (until_with_context w f now)) = (t, AllMet)"
proof (induction w f now rule: until_with_context.induct)
  case (1 w f now)
  show ?case
  proof (cases rule: until_cases [where w=w and now=now and f=f])
    case over
    with "1.prems" show ?thesis by (simp add: until_done)
  next
    case met
    with "1.prems" show ?thesis by (simp add: until_allmet)
  next
    case stop
    with "1.prems" show ?thesis by (auto simp add: until_stop)
  next
    case again
    let ?rest = "until_with_context w f (next_tick w now)"
    from "1.prems" again have "(t, AllMet) \<in> set (polls ?rest)"
      by (auto simp add: until_next)
    with "1.IH" again have ih: "succeeded ?rest \<and> finished ?rest = t + poll_dur w t \<and>
        last (polls ?rest) = (t, AllMet)" and ne: "polls ?rest \<noteq> []"
      by auto
    then show ?thesis using again by (simp add: until_next)
  qed
qed





section \<open>Properties of one poll\<close>

lemma count_unmet_bound:
  "count_unmet rs conds u = Inr v \<Longrightarrow> u \<le> v \<and> v \<le> u + length rs"
proof (induction rs arbitrary: u)
  case Nil
  then show ?case by simp
next
  case (Cons r rs)
  then show ?case
    by (cases "status r") (fastforce split: if_splits)+
qed

lemma condition_unmet_all_true:
  "\<forall>c\<in>set conds. Status (GetCondition st c) = ''True'' \<Longrightarrow> \<not> condition_unmet st conds"
  by (induction conds) auto

lemma count_unmet_all_true:
  "\<forall>x\<in>set items. \<exists>st. status x = StatusValue st \<and>
       (\<forall>c\<in>set conds. Status (GetCondition st c) = ''True'') \<Longrightarrow>
     count_unmet items conds u = Inr u"
proof (induction items arbitrary: u)
  case Nil
  then show ?case by simp
next
  case (Cons x xs)
  then obtain st where st: "status x = StatusValue st"
      "\<forall>c\<in>set conds. Status (GetCondition st c) = ''True''"
    by auto
  from st(2) have "\<not> condition_unmet st conds" by (rule condition_unmet_all_true)
  with st(1) Cons show ?case by simp
qed

lemma count_unmet_no_conditions:
  "\<forall>x\<in>set items. \<forall>err. status x \<noteq> StatusErr err \<Longrightarrow> count_unmet items [] u = Inr u"
proof (induction items arbitrary: u)
  case Nil
  then show ?case by simp
next
  case (Cons x xs)
  then show ?case by (cases "status x") auto
qed

lemma poll_AllMet_iff:
  "poll listed conds = AllMet \<longleftrightarrow> (\<exists>items. listed = Inr items \<and> count_unmet items conds 0 = Inr 0)"
  by (auto simp: poll_def split: sum.splits prod.splits if_splits)

lemma wait_polls:
  "rest_mapping w gk = Inr rm \<Longrightarrow>
     snd (waitForConditions w gk conds) =
       until_with_context w (\<lambda>t. poll (list_at w rm t) conds) (start w)"
  by (simp add: waitForConditions_def Let_def)

lemma wait_result:
  "rest_mapping w gk = Inr rm \<Longrightarrow>
     fst (waitForConditions w gk conds) =
       (if succeeded (until_with_context w (\<lambda>t. poll (list_at w rm t) conds) (start w)) then None
        else Some (Errorf ''timeout waiting for conditions %q to be satisfied for all %q''
                     [printConditions conds, Kind gk]))"
  by (simp add: waitForConditions_def Let_def)

text \<open>
  C3. Whenever a poll of \<open>waitForConditions\<close> lists the resources and none of them is
  unmet (the counter stays at zero: in particular when nothing is listed, and when every
  listed resource reports every requested condition as \<open>True\<close>), the call returns
  without error, that poll is its last one, and it returns when that poll ends, without
  waiting for the period of the next tick.
\<close>

theorem wait_succeeds_on_zero_unmet:
  assumes rm: "rest_mapping w gk = Inr rm"
    and p: "(t, r) \<in> set (polls (snd (waitForConditions w gk conds)))"
    and l: "list_at w rm t = Inr items"
    and z: "count_unmet items conds 0 = Inr 0 \<or> items = [] \<or>
            (\<forall>x\<in>set items. \<exists>st. status x = StatusValue st \<and>
               (\<forall>c\<in>set conds. Status (GetCondition st c) = ''True''))"
  shows "r = AllMet \<and>
         fst (waitForConditions w gk conds) = None \<and>
         last (polls (snd (waitForConditions w gk conds))) = (t, AllMet) \<and>
         finished (snd (waitForConditions w gk conds)) = t + poll_dur w t"
proof -
  let ?f = "\<lambda>t. poll (list_at w rm t) conds"
  let ?run = "until_with_context w ?f (start w)"
  from z have "count_unmet items conds 0 = Inr 0"
    using count_unmet_all_true [of items conds 0] by auto
  with l have "?f t = AllMet" by (simp add: poll_AllMet_iff)
  moreover from p rm have in_run: "(t, r) \<in> set (polls ?run)" by (simp add: wait_polls)
  ultimately have r: "r = AllMet" using polls_sound [OF in_run] by simp
  with in_run have "succeeded ?run \<and> finished ?run = t + poll_dur w t \<and>
      last (polls ?run) = (t, AllMet)"
    using allmet_is_last by blast
  with r rm show ?thesis by (simp add: wait_polls wait_result)
qed

section \<open>The condition waiter on the example worlds\<close>

lemma empty_world_run:
  "until_with_context empty_world (\<lambda>t. poll (list_at empty_world providers_gvr t) cs) 0 =
     \<lparr>succeeded = True, finished = 0, polls = [(0, AllMet)]\<rparr>"
  by (subst until_allmet)
     (simp_all add: empty_world_def ctx_done_def done_time_def timeout_def second_def poll_def)

theorem wait_succeeds_on_zero_unmet_witness:
  "rest_mapping empty_world provider = Inr providers_gvr \<and>
   (0, AllMet) \<in> set (polls (snd (waitForConditions empty_world provider [''Healthy'']))) \<and>
   list_at empty_world providers_gvr 0 = Inr [] \<and>
   fst (waitForConditions empty_world provider [''Healthy'']) = None \<and>
   finished (snd (waitForConditions empty_world provider [''Healthy''])) = 0"
proof -
  have rm: "rest_mapping empty_world provider = Inr providers_gvr"
    by (simp add: empty_world_def)
  have st: "start empty_world = 0" by (simp add: empty_world_def)
  have p: "(0, AllMet) \<in> set (polls (snd (waitForConditions empty_world provider [''Healthy''])))"
    by (simp add: wait_polls [OF rm] st empty_world_run)
  have l: "list_at empty_world providers_gvr 0 = Inr []" by (simp add: empty_world_def)
  have d: "poll_dur empty_world 0 = 0" by (simp add: empty_world_def)
  from wait_succeeds_on_zero_unmet [OF rm p l] rm p l d show ?thesis by simp
qed

section \<open>Properties of printConditions and of the output\<close>





section \<open>Timeout, empty condition lists and cancellation\<close>


text \<open>
  C10. With an empty list of conditions, a poll whose list call succeeds and in which the
  status of every listed resource can be read finds nothing unmet, whatever the
  conditions of the resources are: the call returns without error, and that poll is its
  last. For any list of conditions, the counter of unmet resources that a poll reaches
  is at most the number of listed resources.
\<close>

theorem no_conditions_vacuous_and_unmet_bounded:
  assumes rm: "rest_mapping w gk = Inr rm"
    and p: "(t, r) \<in> set (polls (snd (waitForConditions w gk [])))"
    and l: "list_at w rm t = Inr items"
    and ok: "\<forall>x\<in>set items. \<forall>err. status x \<noteq> StatusErr err"
  shows "r = AllMet \<and>
         fst (waitForConditions w gk []) = None \<and>
         last (polls (snd (waitForConditions w gk []))) = (t, AllMet) \<and>
         finished (snd (waitForConditions w gk [])) = t + poll_dur w t \<and>
         (\<forall>rs conds u. count_unmet rs conds 0 = Inr u \<longrightarrow> u \<le> length rs)"
proof -
  let ?f = "\<lambda>t. poll (list_at w rm t) []"
  let ?run = "until_with_context w ?f (start w)"
  from ok have "count_unmet items [] 0 = Inr 0" by (rule count_unmet_no_conditions)
  with l have "?f t = AllMet" by (simp add: poll_AllMet_iff)
  moreover from p rm have in_run: "(t, r) \<in> set (polls ?run)" by (simp add: wait_polls)
  ultimately have r: "r = AllMet" using polls_sound [OF in_run] by simp
  with in_run have "succeeded ?run \<and> finished ?run = t + poll_dur w t \<and>
      last (polls ?run) = (t, AllMet)"
    using allmet_is_last by blast
  moreover have "\<forall>rs conds u. count_unmet rs conds 0 = Inr u \<longrightarrow> u \<le> length rs"
    using count_unmet_bound by fastforce
  ultimately show ?thesis using r rm by (simp add: wait_polls wait_result)
qed

lemma unknown_world_run:
  "until_with_context unknown_world (\<lambda>t. poll (list_at unknown_world providers_gvr t) []) 0 =
     \<lparr>succeeded = True, finished = 0, polls = [(0, AllMet)]\<rparr>"
  by (subst until_allmet)
     (simp_all add: unknown_world_def ctx_done_def done_time_def timeout_def second_def poll_def
        unknown_item_def unhealthy_item_def)

theorem no_conditions_vacuous_and_unmet_bounded_witness:
  "rest_mapping unknown_world provider = Inr providers_gvr \<and>
   (0, AllMet) \<in> set (polls (snd (waitForConditions unknown_world provider []))) \<and>
   list_at unknown_world providers_gvr 0 = Inr [unknown_item, unhealthy_item] \<and>
   status unknown_item = StatusNotFound \<and>
   Status (GetCondition [\<lparr>Type = ''Installed'', Status = ''True''\<rparr>,
                         \<lparr>Type = ''Healthy'', Status = ''False''\<rparr>] ''Healthy'') = ''False'' \<and>
   fst (waitForConditions unknown_world provider []) = None \<and>
   count_unmet [unknown_item, unhealthy_item] [''Installed'', ''Healthy''] 0 = Inr 2 \<and>
   (2::nat) \<le> length [unknown_item, unhealthy_item]"
proof -
  have rm: "rest_mapping unknown_world provider = Inr providers_gvr"
    by (simp add: unknown_world_def)
  have st: "start unknown_world = 0" by (simp add: unknown_world_def)
  have p: "(0, AllMet) \<in> set (polls (snd (waitForConditions unknown_world provider [])))"
    by (simp add: wait_polls [OF rm] st unknown_world_run)
  have l: "list_at unknown_world providers_gvr 0 = Inr [unknown_item, unhealthy_item]"
    by (simp add: unknown_world_def)
  have ok: "\<forall>x\<in>set [unknown_item, unhealthy_item]. \<forall>err. status x \<noteq> StatusErr err"
    by (simp add: unknown_item_def unhealthy_item_def)
  have c: "count_unmet [unknown_item, unhealthy_item] [''Installed'', ''Healthy''] 0 = Inr 2"
    by (simp add: unknown_item_def unhealthy_item_def)
  from no_conditions_vacuous_and_unmet_bounded [OF rm p l ok] rm p l c show ?thesis
    by (simp add: unknown_item_def)
qed

lemma cancelled_world_run:
  "until_with_context cancelled_world
     (\<lambda>t. poll (list_at cancelled_world providers_gvr t) [''Installed'', ''Healthy'']) 0 =
     \<lparr>succeeded = False, finished = 7 * second,
      polls = [(0, Unmet 1 1), (5 * second, Unmet 1 1)]\<rparr>"
proof -
  let ?f = "\<lambda>t. poll (list_at cancelled_world providers_gvr t) [''Installed'', ''Healthy'']"
  have d: "done_time cancelled_world = 7 * second" "poll_dur cancelled_world = (\<lambda>t. 0)"
    by (simp_all add: cancelled_world_def done_time_def timeout_def second_def)
  have f: "\<And>t. poll (list_at cancelled_world providers_gvr t) [''Installed'', ''Healthy''] = Unmet 1 1"
    by (simp add: cancelled_world_def poll_def unhealthy_item_def)
  have t1: "poll_dur cancelled_world 0 + period = 5 * second"
    by (simp add: d period_def)
  have c: "\<not> ctx_done cancelled_world 0" "\<not> ctx_done cancelled_world (5 * second)"
      "ctx_done cancelled_world (5 * second + poll_dur cancelled_world (5 * second) + period)"
    by (simp_all add: ctx_done_def d period_def second_def)
  have "until_with_context cancelled_world ?f (5 * second) =
      \<lparr>succeeded = False, finished = 7 * second, polls = [(5 * second, Unmet 1 1)]\<rparr>"
    using until_stop [of cancelled_world "5 * second" ?f] c by (simp add: f d second_def)
  moreover have "until_with_context cancelled_world ?f 0 =
      (until_with_context cancelled_world ?f (5 * second))
        \<lparr>polls := (0, ?f 0) # polls (until_with_context cancelled_world ?f (5 * second))\<rparr>"
    using until_next [of cancelled_world 0 ?f] c by (simp add: f t1)
  ultimately show ?thesis by (simp add: f)
qed

text \<open>
  C6, on the condition wait. The caller cancels seven seconds after the call, long before
  the ten minutes of the timeout, while a provider is not healthy: \<open>waitForConditions\<close>
  returns at that time, and the error it returns is the timeout error, not the error
  of the cancelled context.
\<close>

theorem cancelled_wait_reports_timeout:
  "parent_done cancelled_world = Some (7 * second) \<and>
   7 * second < start cancelled_world + timeout \<and>
   finished (snd (waitForConditions cancelled_world provider [''Installed'', ''Healthy''])) = 7 * second \<and>
   fst (waitForConditions cancelled_world provider [''Installed'', ''Healthy'']) =
     Some (Errorf ''timeout waiting for conditions %q to be satisfied for all %q''
             [''Installed and Healthy'', ''Provider'']) \<and>
   fst (waitForConditions cancelled_world provider [''Installed'', ''Healthy'']) \<noteq>
     Some (CtxErr Canceled)"
proof -
  let ?cs = "[''Installed'', ''Healthy'']"
  have rm: "rest_mapping cancelled_world provider = Inr providers_gvr"
    by (simp add: cancelled_world_def)
  have st: "start cancelled_world = 0" "parent_done cancelled_world = Some (7 * second)"
    by (simp_all add: cancelled_world_def)
  have run: "snd (waitForConditions cancelled_world provider ?cs) =
      \<lparr>succeeded = False, finished = 7 * second,
       polls = [(0, Unmet 1 1), (5 * second, Unmet 1 1)]\<rparr>"
    by (simp add: wait_polls [OF rm] st cancelled_world_run)
  have res: "fst (waitForConditions cancelled_world provider ?cs) =
      Some (Errorf ''timeout waiting for conditions %q to be satisfied for all %q''
              [''Installed and Healthy'', ''Provider''])"
    by (simp add: wait_result [OF rm] st cancelled_world_run) (simp add: provider_def)
  show ?thesis by (simp add: run res st timeout_def second_def)
qed

section \<open>Properties of the phases of Import\<close>

lemma precedes_absent: "b \<notin> set tr \<Longrightarrow> precedes a b tr"
  by (induction tr) auto

lemma precedes_append:
  "precedes a b (xs @ ys) = (precedes a b xs \<and> (a \<in> set xs \<or> precedes a b ys))"
  by (induction xs) auto

lemma precedes_split:
  "precedes a b tr \<Longrightarrow> tr = pre @ b # post \<Longrightarrow> a \<noteq> b \<Longrightarrow> a \<in> set pre"
proof (induction tr arbitrary: pre)
  case Nil
  then show ?case by simp
next
  case (Cons x xs)
  then show ?case by (cases pre) auto
qed

lemma contains_iff: "contains ss s \<longleftrightarrow> s \<in> set ss"
  by (induction ss) auto

lemma isBaseResource_iff: "isBaseResource gr \<longleftrightarrow> gr \<in> set baseResources"
  by (simp add: isBaseResource_def contains_iff)

lemma snd_and_then: "snd (and_then a b) = snd a @ (if fst a = None then snd b else [])"
  by (simp add: and_then_def split: option.splits)

lemma fst_and_then: "fst (and_then a b) = (if fst a = None then fst b else fst a)"
  by (simp add: and_then_def split: option.splits)

lemma base_events:
  "ev \<in> set (snd (import_base e f grs)) \<Longrightarrow> \<exists>g\<in>set grs. ev = ImportResources g False"
  by (induction grs) (auto simp: snd_and_then split: sum.splits if_splits)

lemma base_complete:
  "fst (import_base e f grs) = None \<Longrightarrow>
     snd (import_base e f grs) = map (\<lambda>g. ImportResources g False) grs"
  by (induction grs) (auto simp: snd_and_then fst_and_then split: sum.splits if_splits)

lemma wait_each_events:
  "ev \<in> set (snd (wait_each e ks conds)) \<Longrightarrow> \<exists>k\<in>set ks. ev = WaitForConditions k conds"
  by (induction ks) (auto simp: snd_and_then split: option.splits if_splits)

lemma wait_each_complete:
  "fst (wait_each e ks conds) = None \<Longrightarrow>
     snd (wait_each e ks conds) = map (\<lambda>k. WaitForConditions k conds) ks \<and>
     (\<forall>k\<in>set ks. fst (waitForConditions (wait_world e k) k conds) = None)"
  by (induction ks) (auto simp: snd_and_then fst_and_then split: option.splits if_splits)

lemma wait_xrds_events: "snd (wait_xrds e) = [WaitForConditions xrd [''Established'']]"
  by (simp add: wait_xrds_def split: option.splits)

lemma wait_xrds_complete:
  "fst (wait_xrds e) = None \<Longrightarrow>
     fst (waitForConditions (wait_world e xrd) xrd [''Established'']) = None"
  by (simp add: wait_xrds_def split: option.splits)

lemma remaining_events:
  "ev \<in> set (snd (import_remaining e f grs)) \<Longrightarrow>
     \<exists>g. ev = ImportResources g True \<and> (g, True) \<in> set grs \<and> g \<noteq> ''export.yaml'' \<and>
         \<not> isBaseResource g"
  by (induction e f grs rule: import_remaining.induct)
     (auto simp: snd_and_then split: sum.splits if_splits)

lemma remaining_complete:
  "fst (import_remaining e f grs) = None \<Longrightarrow> (g, d) \<in> set grs \<Longrightarrow> g \<noteq> ''export.yaml'' \<Longrightarrow>
     \<not> isBaseResource g \<Longrightarrow> ImportResources g True \<in> set (snd (import_remaining e f grs))"
  by (induction e f grs rule: import_remaining.induct)
     (auto simp: snd_and_then fst_and_then split: sum.splits if_splits)

lemma rest_events:
  "ev \<in> set (snd (import_rest e f)) \<Longrightarrow>
     ev = ReadDir ''/'' \<or>
     (\<exists>g. ev = ImportResources g True \<and> g \<noteq> ''export.yaml'' \<and> \<not> isBaseResource g)"
  by (auto simp: import_rest_def snd_and_then split: sum.splits if_splits dest: remaining_events)

lemma rest_complete:
  "fst (import_rest e f) = None \<Longrightarrow>
     \<exists>grs. fs_read_dir e f ''/'' = Inr grs \<and>
       (\<forall>(g, d)\<in>set grs. g \<noteq> ''export.yaml'' \<and> \<not> isBaseResource g \<longrightarrow>
          ImportResources g True \<in> set (snd (import_rest e f)))"
  by (auto simp: import_rest_def snd_and_then fst_and_then split: sum.splits if_splits
      dest: remaining_complete)

lemma finalize_events:
  "ev \<in> set (snd (finalize e opts)) \<Longrightarrow>
     ev = ModifyResources ''composite'' unpause \<or> ev = ModifyResources ''claim'' unpause \<or>
     ev = ModifyResources ''managed'' unpause"
  by (auto simp: finalize_def split: sum.splits if_splits)

lemma wait_ready_events:
  "ev \<in> set (snd (wait_ready e)) \<Longrightarrow> \<exists>(gk, cs)\<in>set condition_waits. ev = WaitForConditions gk cs"
  by (auto simp: wait_ready_def snd_and_then wait_xrds_events condition_waits_def
      split: if_splits dest!: wait_each_events)

lemma wait_ready_complete:
  "fst (wait_ready e) = None \<Longrightarrow>
     snd (wait_ready e) = map (\<lambda>(gk, cs). WaitForConditions gk cs) condition_waits \<and>
     (\<forall>(gk, cs)\<in>set condition_waits. fst (waitForConditions (wait_world e gk) gk cs) = None)"
  by (auto simp: wait_ready_def snd_and_then fst_and_then wait_xrds_events condition_waits_def
      comp_def split: if_splits dest!: wait_each_complete wait_xrds_complete)

lemma import_state_shape [case_names base_failed wait_failed rest_failed finalizing]:
  assumes "fst (import_base e f baseResources) \<noteq> None \<Longrightarrow>
      import_state e opts f = import_base e f baseResources \<Longrightarrow> P"
    and "fst (import_base e f baseResources) = None \<Longrightarrow> fst (wait_ready e) \<noteq> None \<Longrightarrow>
      import_state e opts f =
        (fst (wait_ready e), snd (import_base e f baseResources) @ snd (wait_ready e)) \<Longrightarrow> P"
    and "fst (import_base e f baseResources) = None \<Longrightarrow> fst (wait_ready e) = None \<Longrightarrow>
      fst (import_rest e f) \<noteq> None \<Longrightarrow>
      import_state e opts f =
        (fst (import_rest e f),
         snd (import_base e f baseResources) @ snd (wait_ready e) @
         MapperReset # snd (import_rest e f)) \<Longrightarrow> P"
    and "fst (import_base e f baseResources) = None \<Longrightarrow> fst (wait_ready e) = None \<Longrightarrow>
      fst (import_rest e f) = None \<Longrightarrow>
      import_state e opts f =
        (fst (finalize e opts),
         snd (import_base e f baseResources) @ snd (wait_ready e) @
         MapperReset # snd (import_rest e f) @ snd (finalize e opts)) \<Longrightarrow> P"
  shows P
proof -
  let ?B = "import_base e f baseResources"
  show ?thesis
  proof (cases "fst ?B")
    case (Some err)
    then have "import_state e opts f = ?B" by (simp add: import_state_def and_then_def)
    with Some assms(1) show ?thesis by simp
  next
    case B: None
    show ?thesis
    proof (cases "fst (wait_ready e)")
      case (Some err)
      with B have "import_state e opts f = (fst (wait_ready e), snd ?B @ snd (wait_ready e))"
        by (simp add: import_state_def and_then_def)
      with B Some assms(2) show ?thesis by simp
    next
      case W: None
      show ?thesis
      proof (cases "fst (import_rest e f)")
        case (Some err)
        with B W have "import_state e opts f =
            (fst (import_rest e f), snd ?B @ snd (wait_ready e) @ MapperReset # snd (import_rest e f))"
          by (simp add: import_state_def and_then_def)
        with B W Some assms(3) show ?thesis by simp
      next
        case None
        with B W have "import_state e opts f =
            (fst (finalize e opts),
             snd ?B @ snd (wait_ready e) @ MapperReset # snd (import_rest e f) @ snd (finalize e opts))"
          by (simp add: import_state_def and_then_def)
        with B W None assms(4) show ?thesis by simp
      qed
    qed
  qed
qed

lemma base_others:
  "WaitForConditions gk cs \<notin> set (snd (import_base e f grs))"
  "MapperReset \<notin> set (snd (import_base e f grs))"
  "ImportResources g True \<notin> set (snd (import_base e f grs))"
  "ReadDir path \<notin> set (snd (import_base e f grs))"
  "ModifyResources c m \<notin> set (snd (import_base e f grs))"
  "Unarchive \<notin> set (snd (import_base e f grs))"
  by (auto dest: base_events)

lemma wait_others:
  "ImportResources g p \<notin> set (snd (wait_ready e))"
  "MapperReset \<notin> set (snd (wait_ready e))"
  "ReadDir path \<notin> set (snd (wait_ready e))"
  "ModifyResources c m \<notin> set (snd (wait_ready e))"
  "Unarchive \<notin> set (snd (wait_ready e))"
  by (auto dest: wait_ready_events)

lemma rest_others:
  "WaitForConditions gk cs \<notin> set (snd (import_rest e f))"
  "MapperReset \<notin> set (snd (import_rest e f))"
  "ImportResources g False \<notin> set (snd (import_rest e f))"
  "ModifyResources c m \<notin> set (snd (import_rest e f))"
  "Unarchive \<notin> set (snd (import_rest e f))"
  by (auto dest: rest_events)

lemma finalize_others:
  "WaitForConditions gk cs \<notin> set (snd (finalize e opts))"
  "MapperReset \<notin> set (snd (finalize e opts))"
  "ImportResources g p \<notin> set (snd (finalize e opts))"
  "ReadDir path \<notin> set (snd (finalize e opts))"
  "Unarchive \<notin> set (snd (finalize e opts))"
  by (auto dest: finalize_events)

lemmas others = base_others wait_others rest_others finalize_others

lemma count_list_absent: "x \<notin> set xs \<Longrightarrow> count_list xs x = 0"
  by (induction xs) auto

lemma state_no_unarchive: "Unarchive \<notin> set (snd (import_state e opts f))"
  by (cases rule: import_state_shape [of e f opts]) (simp_all add: others)

lemma state_base_before_wait:
  assumes "g \<in> set baseResources"
  shows "precedes (ImportResources g False) (WaitForConditions gk cs) (snd (import_state e opts f))"
proof -
  have inB: "fst (import_base e f baseResources) = None \<Longrightarrow>
      ImportResources g False \<in> set (snd (import_base e f baseResources))"
    using assms by (simp add: base_complete)
  show ?thesis
  proof (cases rule: import_state_shape [of e f opts])
    case base_failed
    then show ?thesis by (simp add: precedes_absent others)
  next
    case wait_failed
    with inB show ?thesis by (simp add: precedes_append precedes_absent others)
  next
    case rest_failed
    with inB show ?thesis by (simp add: precedes_append precedes_absent others)
  next
    case finalizing
    with inB show ?thesis by (simp add: precedes_append precedes_absent others)
  qed
qed

lemma state_reset_count:
  "count_list (snd (import_state e opts f)) MapperReset =
     (if fst (import_base e f baseResources) = None \<and> fst (wait_ready e) = None then 1 else 0)"
  by (cases rule: import_state_shape [of e f opts]) (simp_all add: count_list_absent others)

lemma wait_before_reset:
  assumes "(gk, cs) \<in> set condition_waits"
    and "MapperReset \<in> set (snd (import_state e opts f))"
  shows "precedes (WaitForConditions gk cs) MapperReset (snd (import_state e opts f)) \<and>
         fst (waitForConditions (wait_world e gk) gk cs) = None"
proof -
  have in_waits: "fst (wait_ready e) = None \<Longrightarrow>
      WaitForConditions gk cs \<in> set (snd (wait_ready e)) \<and>
      fst (waitForConditions (wait_world e gk) gk cs) = None"
    using assms(1) wait_ready_complete [of e] by force
  show ?thesis
  proof (cases rule: import_state_shape [of e f opts])
    case base_failed
    with assms(2) show ?thesis by (simp add: others)
  next
    case wait_failed
    with assms(2) show ?thesis by (simp add: others)
  next
    case rest_failed
    with in_waits show ?thesis by (simp add: precedes_append precedes_absent others)
  next
    case finalizing
    with in_waits show ?thesis by (simp add: precedes_append precedes_absent others)
  qed
qed

lemma state_import_events:
  assumes "ImportResources g p \<in> set (snd (import_state e opts f))"
  shows "(p \<longleftrightarrow> \<not> isBaseResource g) \<and>
         (p \<longrightarrow> g \<noteq> ''export.yaml'' \<and>
            precedes MapperReset (ImportResources g p) (snd (import_state e opts f)))"
proof -
  have b: "ImportResources g p \<in> set (snd (import_base e f baseResources)) \<Longrightarrow>
      \<not> p \<and> isBaseResource g"
    by (auto dest: base_events simp: isBaseResource_iff)
  have r: "ImportResources g p \<in> set (snd (import_rest e f)) \<Longrightarrow>
      p \<and> \<not> isBaseResource g \<and> g \<noteq> ''export.yaml''"
    by (auto dest: rest_events)
  show ?thesis
  proof (cases rule: import_state_shape [of e f opts])
    case base_failed
    with assms b show ?thesis by auto
  next
    case wait_failed
    with assms b show ?thesis by (auto simp: others)
  next
    case rest_failed
    with assms b r show ?thesis
      by (auto simp: others precedes_append precedes_absent)
  next
    case finalizing
    with assms b r show ?thesis
      by (auto simp: others precedes_append precedes_absent)
  qed
qed

lemma state_success:
  assumes "fst (import_state e opts f) = None"
  shows "count_list (snd (import_state e opts f)) MapperReset = 1 \<and>
         (\<exists>grs. fs_read_dir e f ''/'' = Inr grs \<and>
            (\<forall>(g, d)\<in>set grs. g \<noteq> ''export.yaml'' \<and> \<not> isBaseResource g \<longrightarrow>
               ImportResources g True \<in> set (snd (import_state e opts f))))"
proof (cases rule: import_state_shape [of e f opts])
  case base_failed
  with assms show ?thesis by simp
next
  case wait_failed
  with assms show ?thesis by simp
next
  case rest_failed
  with assms show ?thesis by simp
next
  case finalizing
  from rest_complete [OF finalizing(3)] obtain grs where grs: "fs_read_dir e f ''/'' = Inr grs"
      "\<forall>(g, d)\<in>set grs. g \<noteq> ''export.yaml'' \<and> \<not> isBaseResource g \<longrightarrow>
          ImportResources g True \<in> set (snd (import_rest e f))"
    by blast
  from grs(2) have "\<forall>(g, d)\<in>set grs. g \<noteq> ''export.yaml'' \<and> \<not> isBaseResource g \<longrightarrow>
      ImportResources g True \<in> set (snd (import_state e opts f))"
    using finalizing by auto
  moreover have "count_list (snd (import_state e opts f)) MapperReset = 1"
    using finalizing(1,2) by (simp add: state_reset_count)
  ultimately show ?thesis using grs(1) by blast
qed

lemma wait_each_ok:
  "\<forall>k\<in>set ks. fst (waitForConditions (wait_world e k) k conds) = None \<Longrightarrow>
     fst (wait_each e ks conds) = None"
  by (induction ks) (auto simp: fst_and_then split: option.splits)

lemma wait_ready_ok:
  "\<forall>(gk, cs)\<in>set condition_waits. fst (waitForConditions (wait_world e gk) gk cs) = None \<Longrightarrow>
     fst (wait_ready e) = None"
  by (auto simp: wait_ready_def fst_and_then wait_xrds_def condition_waits_def
      intro!: wait_each_ok split: option.splits)

lemma state_waits_done:
  assumes "\<forall>(gk, cs)\<in>set condition_waits.
      WaitForConditions gk cs \<in> set (snd (import_state e opts f)) \<and>
      fst (waitForConditions (wait_world e gk) gk cs) = None"
  shows "count_list (snd (import_state e opts f)) MapperReset = 1"
proof -
  from assms have ok: "fst (wait_ready e) = None" by (intro wait_ready_ok) auto
  have "(xrd, [''Established'']) \<in> set condition_waits" by (simp add: condition_waits_def)
  with assms have w: "WaitForConditions xrd [''Established''] \<in> set (snd (import_state e opts f))"
    by auto
  have "fst (import_base e f baseResources) = None"
  proof (cases rule: import_state_shape [of e f opts])
    case base_failed
    with w show ?thesis by (simp add: others)
  qed simp_all
  with ok show ?thesis by (simp add: state_reset_count)
qed

lemma Import_cases [consumes 1, case_names reused unarchive_failed unarchived]:
  assumes "Import e im = (r, tr, im')"
    and "\<And>f. fs im = Some f \<Longrightarrow> r = fst (import_state e (options im) f) \<Longrightarrow>
           tr = snd (import_state e (options im) f) \<Longrightarrow> im' = im \<Longrightarrow> P"
    and "\<And>err f. fs im = None \<Longrightarrow> unarchive e (options im) (new_mem_fs e) = (Some err, f) \<Longrightarrow>
           r = Some (Wrap err ''cannot unarchive export archive'') \<Longrightarrow> tr = [Unarchive] \<Longrightarrow>
           im' = im\<lparr>fs := Some f\<rparr> \<Longrightarrow> P"
    and "\<And>f. fs im = None \<Longrightarrow> unarchive e (options im) (new_mem_fs e) = (None, f) \<Longrightarrow>
           r = fst (import_state e (options im) f) \<Longrightarrow>
           tr = Unarchive # snd (import_state e (options im) f) \<Longrightarrow>
           im' = im\<lparr>fs := Some f\<rparr> \<Longrightarrow> P"
  shows P
proof (cases "fs im")
  case None
  show ?thesis
  proof (cases "unarchive e (options im) (new_mem_fs e)")
    case (Pair u f)
    show ?thesis
    proof (cases u)
      case None
      with \<open>fs im = None\<close> Pair have "Import e im =
          (fst (import_state e (options im) f), Unarchive # snd (import_state e (options im) f),
           im\<lparr>fs := Some f\<rparr>)"
        by (simp add: Import_def)
      with assms(1) have "r = fst (import_state e (options im) f)"
          "tr = Unarchive # snd (import_state e (options im) f)" "im' = im\<lparr>fs := Some f\<rparr>"
        by simp_all
      with \<open>fs im = None\<close> Pair None show ?thesis by (intro assms(4) [of f]) simp_all
    next
      case (Some err)
      with \<open>fs im = None\<close> Pair have "Import e im =
          (Some (Wrap err ''cannot unarchive export archive''), [Unarchive], im\<lparr>fs := Some f\<rparr>)"
        by (simp add: Import_def)
      with assms(1) have "r = Some (Wrap err ''cannot unarchive export archive'')"
          "tr = [Unarchive]" "im' = im\<lparr>fs := Some f\<rparr>"
        by simp_all
      with \<open>fs im = None\<close> Pair Some show ?thesis by (intro assms(3) [of err f]) simp_all
    qed
  qed
next
  case (Some f)
  then have "Import e im =
      (fst (import_state e (options im) f), snd (import_state e (options im) f), im)"
    by (simp add: Import_def)
  with assms(1) have "r = fst (import_state e (options im) f)"
      "tr = snd (import_state e (options im) f)" "im' = im"
    by auto
  with Some show ?thesis by (intro assms(2) [of f]) simp_all
qed

section \<open>Runs of Import on the example environments\<close>

lemma empty_world_wait: "waitForConditions empty_world gk cs =
    (None, \<lparr>succeeded = True, finished = 0, polls = [(0, AllMet)]\<rparr>)"
proof -
  have rm: "rest_mapping empty_world gk = Inr providers_gvr" by (simp add: empty_world_def)
  have st: "start empty_world = 0" by (simp add: empty_world_def)
  show ?thesis
    by (simp add: prod_eq_iff wait_polls [OF rm] wait_result [OF rm] st empty_world_run)
qed

lemma demo_unarchive:
  "unarchive demo_env \<lparr>InputArchive = a, UnpauseAfterImport = u\<rparr> [] = (None, demo_fs)"
  by (simp add: unarchive_def demo_env_def toy_archive_def demo_fs_def)

lemma demo_base:
  "import_resources e = (\<lambda>f gr pause. Inr 1) \<Longrightarrow>
     import_base e f grs = (None, map (\<lambda>g. ImportResources g False) grs)"
  by (induction grs) (simp_all add: and_then_def)

lemma demo_waits:
  "wait_world e = (\<lambda>gk. empty_world) \<Longrightarrow>
     wait_ready e = (None, map (\<lambda>(gk, cs). WaitForConditions gk cs) condition_waits)"
  by (simp add: wait_ready_def wait_xrds_def and_then_def empty_world_wait condition_waits_def
      packages_def revisions_def)

lemma demo_rest:
  "fs_read_dir e = (\<lambda>f path. Inr (map (\<lambda>(n, d, b). (n, d)) f)) \<Longrightarrow>
   import_resources e = (\<lambda>f gr pause. Inr 1) \<Longrightarrow>
     import_rest e demo_fs = (None, [ReadDir ''/'', ImportResources ''widgets.example.io'' True])"
  by (simp add: import_rest_def demo_fs_def and_then_def isBaseResource_def baseResources_def)

lemma demo_state:
  "import_state demo_env \<lparr>InputArchive = a, UnpauseAfterImport = True\<rparr> demo_fs = (None, demo_trace)"
proof -
  have e: "import_resources demo_env = (\<lambda>f gr pause. Inr 1)"
      "wait_world demo_env = (\<lambda>gk. empty_world)"
      "fs_read_dir demo_env = (\<lambda>f path. Inr (map (\<lambda>(n, d, b). (n, d)) f))"
      "modify_resources demo_env = (\<lambda>category m. Inr 0)"
    by (simp_all add: demo_env_def)
  have fin: "finalize demo_env \<lparr>InputArchive = a, UnpauseAfterImport = True\<rparr> =
      (None, [ModifyResources ''composite'' unpause, ModifyResources ''claim'' unpause,
              ModifyResources ''managed'' unpause])"
    by (simp add: finalize_def e)
  show ?thesis
    by (simp add: import_state_def demo_base [OF e(1)] demo_waits [OF e(2)]
        demo_rest [OF e(3) e(1)] fin and_then_def demo_trace_def)
qed

lemma demo_Import:
  "Import demo_env demo_importer = (None, Unarchive # demo_trace, demo_importer\<lparr>fs := Some demo_fs\<rparr>)"
proof -
  have "new_mem_fs demo_env = []" by (simp add: demo_env_def)
  then show ?thesis
    by (simp add: Import_def demo_importer_def demo_unarchive demo_state)
qed

lemma unmapped_state:
  "import_state unmapped_env opts demo_fs =
     (Some (Wrap (Wrapf (External ''no matches for kind'') ''cannot get REST mapping for %q''
                    [''CompositeResourceDefinition.apiextensions.crossplane.io''])
              ''there are unhealthy CompositeResourceDefinitions''),
      map (\<lambda>g. ImportResources g False) baseResources @ [WaitForConditions xrd [''Established'']])"
proof -
  have e: "import_resources unmapped_env = (\<lambda>f gr pause. Inr 1)"
    by (simp add: unmapped_env_def demo_env_def)
  have w: "wait_xrds unmapped_env =
      (Some (Wrap (Wrapf (External ''no matches for kind'') ''cannot get REST mapping for %q''
                    [''CompositeResourceDefinition.apiextensions.crossplane.io''])
              ''there are unhealthy CompositeResourceDefinitions''),
       [WaitForConditions xrd [''Established'']])"
    by (simp add: wait_xrds_def unmapped_env_def waitForConditions_def GroupKind_String_def xrd_def)
  show ?thesis
    by (simp add: import_state_def demo_base [OF e] wait_ready_def w and_then_def)
qed

lemma unmapped_Import:
  "Import unmapped_env demo_importer =
     (Some (Wrap (Wrapf (External ''no matches for kind'') ''cannot get REST mapping for %q''
                    [''CompositeResourceDefinition.apiextensions.crossplane.io''])
              ''there are unhealthy CompositeResourceDefinitions''),
      Unarchive # map (\<lambda>g. ImportResources g False) baseResources @
        [WaitForConditions xrd [''Established'']],
      demo_importer\<lparr>fs := Some demo_fs\<rparr>)"
proof -
  have u: "unarchive unmapped_env \<lparr>InputArchive = ''xp-state.tar.gz'', UnpauseAfterImport = True\<rparr> [] =
      (None, demo_fs)"
    by (simp add: unarchive_def unmapped_env_def demo_env_def toy_archive_def demo_fs_def)
  have "new_mem_fs unmapped_env = []" by (simp add: unmapped_env_def demo_env_def)
  then show ?thesis
    by (simp add: Import_def demo_importer_def u unmapped_state)
qed

lemma denied_base:
  "import_base denied_env f baseResources =
     (None, map (\<lambda>g. ImportResources g False) baseResources)"
  by (simp add: baseResources_def denied_env_def demo_env_def and_then_def)

lemma denied_Import:
  "Import denied_env gadgets_importer =
     (Some (Wrapf (External ''denied'') ''cannot import %q resources'' [''gadgets.example.io'']),
      map (\<lambda>g. ImportResources g False) baseResources @
      map (\<lambda>(gk, cs). WaitForConditions gk cs) condition_waits @
      [MapperReset, ReadDir ''/'', ImportResources ''gadgets.example.io'' True],
      gadgets_importer)"
proof -
  have e: "wait_world denied_env = (\<lambda>gk. empty_world)"
    by (simp add: denied_env_def demo_env_def)
  have r: "import_rest denied_env gadgets_fs =
      (Some (Wrapf (External ''denied'') ''cannot import %q resources'' [''gadgets.example.io'']),
       [ReadDir ''/'', ImportResources ''gadgets.example.io'' True])"
    by (simp add: import_rest_def gadgets_fs_def denied_env_def demo_env_def and_then_def
        isBaseResource_def baseResources_def)
  show ?thesis
    by (simp add: Import_def gadgets_importer_def import_state_def denied_base demo_waits [OF e] r
        and_then_def)
qed

section \<open>The finalize phase\<close>

lemma finalize_trace:
  "snd (finalize e opts) =
     ModifyResources ''composite'' unpause #
     (if isl (modify_resources e ''composite'' unpause) then []
      else ModifyResources ''claim'' unpause #
        (if isl (modify_resources e ''claim'' unpause) \<or> \<not> UnpauseAfterImport opts then []
         else [ModifyResources ''managed'' unpause]))"
  by (simp add: finalize_def split: sum.splits)

lemma state_finalize:
  assumes "ModifyResources c m \<in> set (snd (import_state e opts f))"
  shows "\<exists>pre. snd (import_state e opts f) = pre @ snd (finalize e opts) \<and>
           (\<forall>c' m'. ModifyResources c' m' \<notin> set pre)"
proof (cases rule: import_state_shape [of e f opts])
  case base_failed
  with assms show ?thesis by (simp add: others)
next
  case wait_failed
  with assms show ?thesis by (simp add: others)
next
  case rest_failed
  with assms show ?thesis by (simp add: others)
next
  case finalizing
  let ?pre = "snd (import_base e f baseResources) @ snd (wait_ready e) @
      MapperReset # snd (import_rest e f)"
  have "snd (import_state e opts f) = ?pre @ snd (finalize e opts)"
    using finalizing by simp
  moreover have "\<forall>c' m'. ModifyResources c' m' \<notin> set ?pre" by (simp add: others)
  ultimately show ?thesis by blast
qed

lemma state_finalize_order:
  assumes "ModifyResources ''composite'' unpause \<in> set (snd (import_state e opts f))"
  shows "precedes (ModifyResources ''composite'' unpause) (ModifyResources ''claim'' unpause)
           (snd (import_state e opts f)) \<and>
         precedes (ModifyResources ''claim'' unpause) (ModifyResources ''managed'' unpause)
           (snd (import_state e opts f)) \<and>
         (ModifyResources ''claim'' unpause \<in> set (snd (import_state e opts f)) \<longleftrightarrow>
            \<not> isl (modify_resources e ''composite'' unpause)) \<and>
         (ModifyResources ''managed'' unpause \<in> set (snd (import_state e opts f)) \<longleftrightarrow>
            UnpauseAfterImport opts \<and> \<not> isl (modify_resources e ''composite'' unpause) \<and>
            \<not> isl (modify_resources e ''claim'' unpause))"
proof -
  from state_finalize [OF assms] obtain pre
    where pre: "snd (import_state e opts f) = pre @ snd (finalize e opts)"
      "\<forall>c' m'. ModifyResources c' m' \<notin> set pre"
    by blast
  show ?thesis
    by (simp add: pre precedes_append precedes_absent finalize_trace)
qed

lemma forbidden_Import:
  "Import forbidden_env gadgets_importer =
     (Some (Wrap (External ''forbidden'') ''cannot unpause composites''),
      map (\<lambda>g. ImportResources g False) baseResources @
      map (\<lambda>(gk, cs). WaitForConditions gk cs) condition_waits @
      [MapperReset, ReadDir ''/'', ImportResources ''gadgets.example.io'' True,
       ImportResources ''widgets.example.io'' True, ModifyResources ''composite'' unpause],
      gadgets_importer)"
proof -
  have e: "wait_world forbidden_env = (\<lambda>gk. empty_world)"
      "import_resources forbidden_env = (\<lambda>f gr pause. Inr 1)"
    by (simp_all add: forbidden_env_def demo_env_def)
  have r: "import_rest forbidden_env gadgets_fs =
      (None, [ReadDir ''/'', ImportResources ''gadgets.example.io'' True,
              ImportResources ''widgets.example.io'' True])"
    by (simp add: import_rest_def gadgets_fs_def forbidden_env_def demo_env_def and_then_def
        isBaseResource_def baseResources_def)
  have fin: "finalize forbidden_env \<lparr>InputArchive = ''xp-state.tar.gz'', UnpauseAfterImport = True\<rparr> =
      (Some (Wrap (External ''forbidden'') ''cannot unpause composites''),
       [ModifyResources ''composite'' unpause])"
    by (simp add: finalize_def forbidden_env_def demo_env_def)
  show ?thesis
    by (simp add: Import_def gadgets_importer_def import_state_def demo_base [OF e(2)]
        demo_waits [OF e(1)] r fin and_then_def)
qed

section \<open>Preflight checks and extraction\<close>

lemma missing_flags_eq:
  "missing_flags ffs observed = map flag_not_set (filter (\<lambda>ff. ff \<notin> set observed) ffs)"
  by (induction ffs) (simp_all add: contains_iff)

lemma compare_info_eq:
  "compare_info observed exported =
     (if Version observed \<noteq> Version exported
      then [version_mismatch (Version observed) (Version exported)] else []) @
     map flag_not_set (filter (\<lambda>ff. ff \<notin> set (FeatureFlags observed)) (FeatureFlags exported))"
  by (simp add: compare_info_def missing_flags_eq)


lemma Preflight_cases [consumes 1, case_names no_info reused unarchive_failed unarchived]:
  assumes "PreflightChecks e im = (errs, tr, im')"
    and "\<And>err. collect_info e = Inl err \<Longrightarrow> errs = [Wrap err ''Cannot get Crossplane info''] \<Longrightarrow>
           tr = [] \<Longrightarrow> im' = im \<Longrightarrow> P"
    and "\<And>observed f. collect_info e = Inr observed \<Longrightarrow> fs im = Some f \<Longrightarrow>
           errs = check_meta e observed f \<Longrightarrow> tr = [] \<Longrightarrow> im' = im \<Longrightarrow> P"
    and "\<And>observed err f. collect_info e = Inr observed \<Longrightarrow> fs im = None \<Longrightarrow>
           unarchive e (options im) (new_mem_fs e) = (Some err, f) \<Longrightarrow>
           errs = [Wrap err ''Cannot unarchive export archive''] \<Longrightarrow> tr = [Unarchive] \<Longrightarrow>
           im' = im\<lparr>fs := Some f\<rparr> \<Longrightarrow> P"
    and "\<And>observed f. collect_info e = Inr observed \<Longrightarrow> fs im = None \<Longrightarrow>
           unarchive e (options im) (new_mem_fs e) = (None, f) \<Longrightarrow>
           errs = check_meta e observed f \<Longrightarrow> tr = [Unarchive] \<Longrightarrow>
           im' = im\<lparr>fs := Some f\<rparr> \<Longrightarrow> P"
  shows P
proof (cases "collect_info e")
  case (Inl err)
  then have "PreflightChecks e im = ([Wrap err ''Cannot get Crossplane info''], [], im)"
    by (simp add: PreflightChecks_def)
  with assms(1) have "errs = [Wrap err ''Cannot get Crossplane info'']" "tr = []" "im' = im"
    by auto
  with Inl show ?thesis by (intro assms(2) [of err]) simp_all
next
  case (Inr observed)
  show ?thesis
  proof (cases "fs im")
    case (Some f)
    with Inr have "PreflightChecks e im = (check_meta e observed f, [], im)"
      by (simp add: PreflightChecks_def)
    with assms(1) have "errs = check_meta e observed f" "tr = []" "im' = im" by auto
    with Inr Some show ?thesis by (intro assms(3) [of observed f]) simp_all
  next
    case None
    show ?thesis
    proof (cases "unarchive e (options im) (new_mem_fs e)")
      case (Pair u f)
      show ?thesis
      proof (cases u)
        case (Some err)
        with Inr None Pair have "PreflightChecks e im =
            ([Wrap err ''Cannot unarchive export archive''], [Unarchive], im\<lparr>fs := Some f\<rparr>)"
          by (simp add: PreflightChecks_def)
        with assms(1) have "errs = [Wrap err ''Cannot unarchive export archive'']"
            "tr = [Unarchive]" "im' = im\<lparr>fs := Some f\<rparr>"
          by simp_all
        with Inr None Pair Some show ?thesis by (intro assms(4) [of observed err f]) simp_all
      next
        case U: None
        with Inr None Pair have "PreflightChecks e im =
            (check_meta e observed f, [Unarchive], im\<lparr>fs := Some f\<rparr>)"
          by (simp add: PreflightChecks_def)
        with assms(1) have "errs = check_meta e observed f" "tr = [Unarchive]"
            "im' = im\<lparr>fs := Some f\<rparr>"
          by simp_all
        with Inr None Pair U show ?thesis by (intro assms(5) [of observed f]) simp_all
      qed
    qed
  qed
qed

text \<open>
  C9. In a run of \<open>PreflightChecks\<close> followed by \<open>Import\<close> on the same importer, the
  archive is extracted at most once. \<open>PreflightChecks\<close> extracts exactly when the store
  is not yet there and the target's information could be collected; \<open>Import\<close> extracts
  exactly when the store is not yet there. A store that is there is kept as it is, and
  \<open>Import\<close> then works on that store.
\<close>

theorem extraction_at_most_once:
  assumes pre: "PreflightChecks e im = (errs, tr1, im1)"
    and run: "Import e im1 = (r, tr2, im2)"
  shows "count_list (tr1 @ tr2) Unarchive \<le> 1 \<and>
         (Unarchive \<in> set tr1 \<longleftrightarrow> fs im = None \<and> \<not> isl (collect_info e)) \<and>
         (Unarchive \<in> set tr2 \<longleftrightarrow> fs im1 = None) \<and>
         (\<forall>f. fs im = Some f \<longrightarrow> fs im1 = Some f) \<and>
         (\<forall>f. fs im1 = Some f \<longrightarrow>
            fs im2 = Some f \<and> r = fst (import_state e (options im1) f) \<and>
            tr2 = snd (import_state e (options im1) f))"
proof -
  have second: "(Unarchive \<in> set tr2 \<longleftrightarrow> fs im1 = None) \<and>
      count_list tr2 Unarchive = (if fs im1 = None then 1 else 0) \<and>
      (\<forall>f. fs im1 = Some f \<longrightarrow>
         fs im2 = Some f \<and> r = fst (import_state e (options im1) f) \<and>
         tr2 = snd (import_state e (options im1) f))"
    using run
  proof (cases rule: Import_cases)
    case (reused f)
    then show ?thesis by (simp add: state_no_unarchive count_list_absent)
  next
    case (unarchive_failed err f)
    then show ?thesis by simp
  next
    case (unarchived f)
    then show ?thesis by (simp add: state_no_unarchive count_list_absent)
  qed
  from pre show ?thesis
  proof (cases rule: Preflight_cases)
    case (no_info err)
    with second show ?thesis by auto
  next
    case (reused observed f)
    with second show ?thesis by auto
  next
    case (unarchive_failed observed err f)
    with second show ?thesis by auto
  next
    case (unarchived observed f)
    with second show ?thesis by auto
  qed
qed

lemma demo_check_meta:
  "check_meta demo_env \<lparr>Version = ''1.14.0'', FeatureFlags = [''A'']\<rparr> demo_fs = [flag_not_set ''B'']"
  by (simp add: check_meta_def demo_env_def demo_fs_def compare_info_def)

lemma demo_Preflight:
  "PreflightChecks demo_env demo_importer =
     ([flag_not_set ''B''], [Unarchive], demo_importer\<lparr>fs := Some demo_fs\<rparr>)"
proof -
  have e: "collect_info demo_env = Inr \<lparr>Version = ''1.14.0'', FeatureFlags = [''A'']\<rparr>"
      "new_mem_fs demo_env = []"
    by (simp_all add: demo_env_def)
  show ?thesis
    by (simp add: PreflightChecks_def e demo_importer_def demo_unarchive demo_check_meta)
qed

lemma demo_Import_again:
  "Import demo_env (demo_importer\<lparr>fs := Some demo_fs\<rparr>) =
     (None, demo_trace, demo_importer\<lparr>fs := Some demo_fs\<rparr>)"
  by (simp add: Import_def demo_importer_def demo_state)

theorem extraction_at_most_once_witness:
  "PreflightChecks demo_env demo_importer =
     ([flag_not_set ''B''], [Unarchive], demo_importer\<lparr>fs := Some demo_fs\<rparr>) \<and>
   Import demo_env (demo_importer\<lparr>fs := Some demo_fs\<rparr>) =
     (None, demo_trace, demo_importer\<lparr>fs := Some demo_fs\<rparr>) \<and>
   count_list ([Unarchive] @ demo_trace) Unarchive \<le> 1 \<and>
   Unarchive \<notin> set demo_trace \<and>
   fs demo_importer = None"
proof -
  have "fs demo_importer = None" "fs (demo_importer\<lparr>fs := Some demo_fs\<rparr>) = Some demo_fs"
    by (simp_all add: demo_importer_def)
  with extraction_at_most_once [OF demo_Preflight demo_Import_again] demo_Preflight
    demo_Import_again
  show ?thesis by simp
qed



lemma check_meta_cases:
  "(\<exists>err. fs_read_file e f ''export.yaml'' = Inl err \<and>
      check_meta e observed f = [Wrap err ''Cannot read export metadata'']) \<or>
   (\<exists>err b. fs_read_file e f ''export.yaml'' = Inr b \<and> yaml_unmarshal e b = Inl err \<and>
      check_meta e observed f = [Wrap err ''Cannot unmarshal export metadata'']) \<or>
   (\<exists>b em. fs_read_file e f ''export.yaml'' = Inr b \<and> yaml_unmarshal e b = Inr em \<and>
      check_meta e observed f = compare_info observed (Crossplane em))"
proof (cases "fs_read_file e f ''export.yaml''")
  case (Inl err)
  then show ?thesis by (simp add: check_meta_def)
next
  case (Inr b)
  then show ?thesis by (cases "yaml_unmarshal e b") (simp_all add: check_meta_def)
qed

text \<open>
  C8, as the code has it. \<open>PreflightChecks\<close> returns a single wrapped error in four
  cases only: the target's Crossplane information cannot be collected, the archive
  cannot be unarchived, the metadata record cannot be read, or it cannot be decoded. In
  every other case it returns the whole list of mismatches: the version mismatch, if
  any, and every exported flag that is missing on the target.
\<close>

theorem preflight_fatal_errors:
  "(\<exists>err. collect_info e = Inl err \<and>
      fst (PreflightChecks e im) = [Wrap err ''Cannot get Crossplane info'']) \<or>
   (\<exists>err f. fs im = None \<and> unarchive e (options im) (new_mem_fs e) = (Some err, f) \<and>
      fst (PreflightChecks e im) = [Wrap err ''Cannot unarchive export archive'']) \<or>
   (\<exists>err f. fs (snd (snd (PreflightChecks e im))) = Some f \<and>
      fs_read_file e f ''export.yaml'' = Inl err \<and>
      fst (PreflightChecks e im) = [Wrap err ''Cannot read export metadata'']) \<or>
   (\<exists>err f b. fs (snd (snd (PreflightChecks e im))) = Some f \<and>
      fs_read_file e f ''export.yaml'' = Inr b \<and> yaml_unmarshal e b = Inl err \<and>
      fst (PreflightChecks e im) = [Wrap err ''Cannot unmarshal export metadata'']) \<or>
   (\<exists>observed f b em. collect_info e = Inr observed \<and>
      fs (snd (snd (PreflightChecks e im))) = Some f \<and>
      fs_read_file e f ''export.yaml'' = Inr b \<and> yaml_unmarshal e b = Inr em \<and>
      fst (PreflightChecks e im) =
        (if Version observed \<noteq> Version (Crossplane em)
         then [version_mismatch (Version observed) (Version (Crossplane em))] else []) @
        map flag_not_set
          (filter (\<lambda>ff. ff \<notin> set (FeatureFlags observed)) (FeatureFlags (Crossplane em))))"
proof -
  obtain errs tr im' where p: "PreflightChecks e im = (errs, tr, im')"
    by (cases "PreflightChecks e im") auto
  from p show ?thesis
  proof (cases rule: Preflight_cases)
    case (no_info err)
    then show ?thesis by (simp add: p)
  next
    case (reused observed f)
    with check_meta_cases [of e f observed] show ?thesis
      unfolding p compare_info_eq by fastforce
  next
    case (unarchive_failed observed err f)
    then show ?thesis by (simp add: p)
  next
    case (unarchived observed f)
    with check_meta_cases [of e f observed] show ?thesis
      unfolding p compare_info_eq by fastforce
  qed
qed

theorem preflight_fatal_errors_counterexample:
  "fst (PreflightChecks no_info_env demo_importer) =
     [Wrap (External ''deployments.apps is forbidden'') ''Cannot get Crossplane info''] \<and>
   unarchive no_info_env (options demo_importer) (new_mem_fs no_info_env) = (None, demo_fs) \<and>
   fs_read_file no_info_env demo_fs ''export.yaml'' = Inr ''crossplane: ...'' \<and>
   yaml_unmarshal no_info_env ''crossplane: ...'' =
     Inr \<lparr>Crossplane = \<lparr>Version = ''1.14.0'', FeatureFlags = [''A'', ''B'']\<rparr>\<rparr>"
  by (simp add: PreflightChecks_def no_info_env_def demo_env_def demo_importer_def unarchive_def
      toy_archive_def demo_fs_def)

lemma extract_entries_cancelled:
  "ctx_err_at e k = Some ce \<Longrightarrow> extract_entries e archive k entries f = (Some (CtxErr ce), f)"
  by simp

lemma unarchive_cancelled:
  "os_open e (InputArchive opts) = Inr g \<Longrightarrow> gzip_new_reader e g = Inr tr \<Longrightarrow>
     ctx_err_at e 0 = Some ce \<Longrightarrow> unarchive e opts f = (Some (CtxErr ce), f)"
  by (simp add: unarchive_def)

section \<open>Failed polls and unready resources\<close>













section \<open>Runs of Import stop at the first failure\<close>

lemma stops_one: "(r = None \<longrightarrow> \<not> failed ev) \<Longrightarrow> stops_at_failure failed (r, [ev])"
  by (simp add: stops_at_failure_def)

lemma stops_none: "stops_at_failure failed (r, [])"
  by (simp add: stops_at_failure_def)

lemma stops_and_then:
  assumes "stops_at_failure failed a" and "stops_at_failure failed b"
  shows "stops_at_failure failed (and_then a b)"
proof (cases "fst a")
  case (Some err)
  then have "and_then a b = a" by (simp add: and_then_def)
  with assms(1) show ?thesis by simp
next
  case None
  then have eq: "and_then a b = (fst b, snd a @ snd b)" by (simp add: and_then_def)
  from None assms(1) have a: "\<forall>ev\<in>set (snd a). \<not> failed ev"
    by (simp add: stops_at_failure_def)
  from assms(2) have b: "\<forall>ev\<in>set (butlast (snd b)). \<not> failed ev"
      "fst b = None \<longrightarrow> (\<forall>ev\<in>set (snd b). \<not> failed ev)"
    by (simp_all add: stops_at_failure_def)
  have "\<forall>ev\<in>set (butlast (snd a @ snd b)). \<not> failed ev"
    using a b(1) by (auto simp: butlast_append dest: in_set_butlastD)
  moreover have "fst b = None \<longrightarrow> (\<forall>ev\<in>set (snd a @ snd b). \<not> failed ev)"
    using a b(2) by auto
  ultimately show ?thesis by (simp add: eq stops_at_failure_def)
qed

lemma base_stops: "stops_at_failure (call_failed e opts f) (import_base e f grs)"
proof (induction grs)
  case Nil
  show ?case by (simp add: stops_none)
next
  case (Cons gr grs)
  show ?case
  proof (cases "import_resources e f gr False")
    case (Inl err)
    then show ?thesis by (simp add: stops_one)
  next
    case (Inr n)
    then have "stops_at_failure (call_failed e opts f) (None, [ImportResources gr False])"
      by (simp add: stops_one)
    with Cons Inr show ?thesis by (simp add: stops_and_then)
  qed
qed

lemma wait_each_stops: "stops_at_failure (call_failed e opts f) (wait_each e ks conds)"
proof (induction ks)
  case Nil
  show ?case by (simp add: stops_none)
next
  case (Cons k ks)
  show ?case
  proof (cases "fst (waitForConditions (wait_world e k) k conds)")
    case (Some err)
    then show ?thesis by (simp add: stops_one)
  next
    case None
    then have "stops_at_failure (call_failed e opts f) (None, [WaitForConditions k conds])"
      by (simp add: stops_one)
    with Cons None show ?thesis by (simp add: stops_and_then)
  qed
qed

lemma wait_ready_stops: "stops_at_failure (call_failed e opts f) (wait_ready e)"
proof -
  have "stops_at_failure (call_failed e opts f) (wait_xrds e)"
    by (cases "fst (waitForConditions (wait_world e xrd) xrd [''Established''])")
       (simp_all add: wait_xrds_def stops_one)
  then show ?thesis by (simp add: wait_ready_def stops_and_then wait_each_stops)
qed

lemma remaining_stops: "stops_at_failure (call_failed e opts f) (import_remaining e f grs)"
proof (induction e f grs rule: import_remaining.induct)
  case (1 e f)
  show ?case by (simp add: stops_none)
next
  case (2 e f name is_dir grs)
  show ?case
  proof (cases "name = ''export.yaml''")
    case True
    with 2 show ?thesis by simp
  next
    case not_meta: False
    show ?thesis
    proof (cases is_dir)
      case False
      with not_meta show ?thesis by (simp add: stops_none)
    next
      case True
      show ?thesis
      proof (cases "isBaseResource name")
        case True
        with 2 not_meta \<open>is_dir\<close> show ?thesis by simp
      next
        case False
        show ?thesis
        proof (cases "import_resources e f name True")
          case (Inl err)
          with not_meta \<open>is_dir\<close> False show ?thesis by (simp add: stops_one)
        next
          case (Inr n)
          then have "stops_at_failure (call_failed e opts f) (None, [ImportResources name True])"
            by (simp add: stops_one)
          with 2 not_meta \<open>is_dir\<close> False Inr show ?thesis by (simp add: stops_and_then)
        qed
      qed
    qed
  qed
qed

lemma rest_stops: "stops_at_failure (call_failed e opts f) (import_rest e f)"
proof (cases "fs_read_dir e f ''/''")
  case (Inl err)
  then show ?thesis by (simp add: import_rest_def stops_one)
next
  case (Inr grs)
  then have "stops_at_failure (call_failed e opts f) (None, [ReadDir ''/''])"
    by (simp add: stops_one)
  with Inr show ?thesis by (simp add: import_rest_def stops_and_then remaining_stops)
qed

lemma finalize_stops: "stops_at_failure (call_failed e opts' f) (finalize e opts)"
  by (auto simp: stops_at_failure_def finalize_def split: sum.splits)

lemma state_stops: "stops_at_failure (call_failed e opts' f) (import_state e opts f)"
proof -
  have "stops_at_failure (call_failed e opts' f) (None, [MapperReset])"
    by (simp add: stops_one)
  then show ?thesis
    by (simp add: import_state_def stops_and_then base_stops wait_ready_stops rest_stops
        finalize_stops)
qed

lemma base_ok_iff:
  "fst (import_base e f grs) = None \<longleftrightarrow> (\<forall>g\<in>set grs. \<not> isl (import_resources e f g False))"
  by (induction grs) (auto simp: fst_and_then split: sum.splits)

lemma wait_ready_ok_iff:
  "fst (wait_ready e) = None \<longleftrightarrow>
     (\<forall>(gk, cs)\<in>set condition_waits. fst (waitForConditions (wait_world e gk) gk cs) = None)"
  using wait_ready_ok [of e] wait_ready_complete [of e] by blast

lemma state_wait_base_ok:
  assumes "WaitForConditions gk cs \<in> set (snd (import_state e opts f))"
  shows "\<forall>g\<in>set baseResources. \<not> isl (import_resources e f g False)"
proof (cases rule: import_state_shape [of e f opts])
  case base_failed
  with assms show ?thesis by (simp add: others)
qed (simp_all add: base_ok_iff)

lemma state_reset_iff:
  "MapperReset \<in> set (snd (import_state e opts f)) \<longleftrightarrow>
     (\<forall>g\<in>set baseResources. \<not> isl (import_resources e f g False)) \<and>
     (\<forall>(gk, cs)\<in>set condition_waits. fst (waitForConditions (wait_world e gk) gk cs) = None)"
proof -
  have "MapperReset \<in> set (snd (import_state e opts f)) \<longleftrightarrow>
      fst (import_base e f baseResources) = None \<and> fst (wait_ready e) = None"
    by (cases rule: import_state_shape [of e f opts]) (simp_all add: others)
  then show ?thesis by (simp add: base_ok_iff wait_ready_ok_iff)
qed

lemma remaining_root_entry:
  "ImportResources g True \<in> set (snd (import_remaining e f grs)) \<Longrightarrow>
     \<exists>xs ys. grs = xs @ (g, True) # ys \<and> (\<forall>(n, d)\<in>set xs. n = ''export.yaml'' \<or> d)"
proof (induction grs)
  case Nil
  then show ?case by simp
next
  case (Cons entry grs)
  obtain name is_dir where entry: "entry = (name, is_dir)" by (cases entry)
  have later: "ImportResources g True \<in> set (snd (import_remaining e f grs)) \<Longrightarrow>
      name = ''export.yaml'' \<or> is_dir \<Longrightarrow> ?case"
  proof -
    assume "ImportResources g True \<in> set (snd (import_remaining e f grs))"
      and ok: "name = ''export.yaml'' \<or> is_dir"
    with Cons.IH obtain xs ys where "grs = xs @ (g, True) # ys"
        "\<forall>(n, d)\<in>set xs. n = ''export.yaml'' \<or> d"
      by blast
    with ok entry have "entry # grs = (entry # xs) @ (g, True) # ys \<and>
        (\<forall>(n, d)\<in>set (entry # xs). n = ''export.yaml'' \<or> d)"
      by simp
    then show ?thesis by blast
  qed
  have here: "g = name \<Longrightarrow> is_dir \<Longrightarrow> ?case"
  proof -
    assume "g = name" and is_dir
    with entry have "entry # grs = [] @ (g, True) # grs \<and>
        (\<forall>(n, d)\<in>set []. n = ''export.yaml'' \<or> d)"
      by simp
    then show ?thesis by blast
  qed
  show ?case
  proof (cases "name = ''export.yaml''")
    case True
    with Cons.prems entry later show ?thesis by simp
  next
    case not_meta: False
    show ?thesis
    proof (cases is_dir)
      case False
      with Cons.prems entry not_meta show ?thesis by simp
    next
      case True
      show ?thesis
      proof (cases "isBaseResource name")
        case base: True
        with Cons.prems entry not_meta True later show ?thesis by simp
      next
        case False
        with Cons.prems entry not_meta True
        have "g = name \<or> ImportResources g True \<in> set (snd (import_remaining e f grs))"
          by (cases "import_resources e f name True") (auto simp: snd_and_then)
        with here later True show ?thesis by blast
      qed
    qed
  qed
qed

lemma state_root_entry:
  assumes "ImportResources g True \<in> set (snd (import_state e opts f))"
  shows "\<exists>grs xs ys. fs_read_dir e f ''/'' = Inr grs \<and> grs = xs @ (g, True) # ys \<and>
           (\<forall>(n, d)\<in>set xs. n = ''export.yaml'' \<or> d)"
proof -
  have "ImportResources g True \<in> set (snd (import_rest e f))"
    using assms by (cases rule: import_state_shape [of e f opts]) (simp_all add: others)
  then obtain grs where grs: "fs_read_dir e f ''/'' = Inr grs"
      "ImportResources g True \<in> set (snd (import_remaining e f grs))"
    by (auto simp: import_rest_def snd_and_then split: sum.splits)
  from remaining_root_entry [OF grs(2)] grs(1) show ?thesis by blast
qed

lemma remaining_unexpected:
  "(name, False) \<in> set grs \<Longrightarrow> name \<noteq> ''export.yaml'' \<Longrightarrow>
     fst (import_remaining e f grs) \<noteq> None"
  by (induction e f grs rule: import_remaining.induct)
     (auto simp: fst_and_then split: sum.splits)

lemma state_unexpected:
  assumes "fs_read_dir e f ''/'' = Inr grs" and "(name, False) \<in> set grs"
    and "name \<noteq> ''export.yaml''"
  shows "fst (import_state e opts f) \<noteq> None \<and>
         (\<forall>c m. ModifyResources c m \<notin> set (snd (import_state e opts f)))"
proof -
  have "fst (import_rest e f) \<noteq> None"
    using assms remaining_unexpected [of name grs e f]
    by (simp add: import_rest_def fst_and_then)
  then show ?thesis
    by (cases rule: import_state_shape [of e f opts]) (simp_all add: others)
qed

lemma state_order:
  fixes e :: "'fs env" and opts :: Options and f :: 'fs
  defines "t \<equiv> snd (import_state e opts f)"
  shows "(\<forall>g\<in>set baseResources. \<forall>gk cs.
            precedes (ImportResources g False) (WaitForConditions gk cs) t) \<and>
         ((\<exists>gk cs. WaitForConditions gk cs \<in> set t) \<longrightarrow>
            (\<forall>g\<in>set baseResources. \<not> isl (import_resources e f g False))) \<and>
         count_list t MapperReset \<le> 1 \<and>
         (MapperReset \<in> set t \<longleftrightarrow>
            (\<forall>g\<in>set baseResources. \<not> isl (import_resources e f g False)) \<and>
            (\<forall>(gk, cs)\<in>set condition_waits.
               fst (waitForConditions (wait_world e gk) gk cs) = None)) \<and>
         (MapperReset \<in> set t \<longrightarrow>
            (\<forall>(gk, cs)\<in>set condition_waits. precedes (WaitForConditions gk cs) MapperReset t)) \<and>
         ((\<forall>(gk, cs)\<in>set condition_waits.
             WaitForConditions gk cs \<in> set t \<and>
             fst (waitForConditions (wait_world e gk) gk cs) = None) \<longrightarrow>
            count_list t MapperReset = 1) \<and>
         (\<forall>g p. ImportResources g p \<in> set t \<longrightarrow>
            (p \<longleftrightarrow> \<not> isBaseResource g) \<and>
            (p \<longrightarrow> g \<noteq> ''export.yaml'' \<and> precedes MapperReset (ImportResources g p) t \<and>
               (\<exists>grs xs ys. fs_read_dir e f ''/'' = Inr grs \<and> grs = xs @ (g, True) # ys \<and>
                  (\<forall>(n, d)\<in>set xs. n = ''export.yaml'' \<or> d)))) \<and>
         (fst (import_state e opts f) = None \<longrightarrow>
            count_list t MapperReset = 1 \<and>
            (\<exists>grs. fs_read_dir e f ''/'' = Inr grs \<and>
               (\<forall>(g, d)\<in>set grs. g \<noteq> ''export.yaml'' \<and> \<not> isBaseResource g \<longrightarrow>
                  ImportResources g True \<in> set t))) \<and>
         (\<forall>ev\<in>set (butlast t). \<not> call_failed e opts f ev) \<and>
         (fst (import_state e opts f) = None \<longrightarrow> (\<forall>ev\<in>set t. \<not> call_failed e opts f ev)) \<and>
         (\<forall>grs name. fs_read_dir e f ''/'' = Inr grs \<and> (name, False) \<in> set grs \<and>
            name \<noteq> ''export.yaml'' \<longrightarrow>
            fst (import_state e opts f) \<noteq> None \<and> (\<forall>c m. ModifyResources c m \<notin> set t))"
proof -
  have c1: "\<forall>g\<in>set baseResources. \<forall>gk cs.
      precedes (ImportResources g False) (WaitForConditions gk cs) t"
    unfolding t_def by (simp add: state_base_before_wait)
  have c2: "(\<exists>gk cs. WaitForConditions gk cs \<in> set t) \<longrightarrow>
      (\<forall>g\<in>set baseResources. \<not> isl (import_resources e f g False))"
    unfolding t_def using state_wait_base_ok [of _ _ e opts f] by blast
  have c3: "count_list t MapperReset \<le> 1"
    unfolding t_def by (simp add: state_reset_count)
  have c4: "MapperReset \<in> set t \<longleftrightarrow>
      (\<forall>g\<in>set baseResources. \<not> isl (import_resources e f g False)) \<and>
      (\<forall>(gk, cs)\<in>set condition_waits. fst (waitForConditions (wait_world e gk) gk cs) = None)"
    unfolding t_def by (rule state_reset_iff)
  have c5: "MapperReset \<in> set t \<longrightarrow>
      (\<forall>(gk, cs)\<in>set condition_waits. precedes (WaitForConditions gk cs) MapperReset t)"
    unfolding t_def using wait_before_reset [of _ _ e opts f] by blast
  have c6: "(\<forall>(gk, cs)\<in>set condition_waits.
       WaitForConditions gk cs \<in> set t \<and>
       fst (waitForConditions (wait_world e gk) gk cs) = None) \<longrightarrow>
      count_list t MapperReset = 1"
    unfolding t_def using state_waits_done [of e opts f] by blast
  have c7: "\<forall>g p. ImportResources g p \<in> set t \<longrightarrow>
      (p \<longleftrightarrow> \<not> isBaseResource g) \<and>
      (p \<longrightarrow> g \<noteq> ''export.yaml'' \<and> precedes MapperReset (ImportResources g p) t \<and>
         (\<exists>grs xs ys. fs_read_dir e f ''/'' = Inr grs \<and> grs = xs @ (g, True) # ys \<and>
            (\<forall>(n, d)\<in>set xs. n = ''export.yaml'' \<or> d)))"
  proof (intro allI impI)
    fix g p
    assume a: "ImportResources g p \<in> set t"
    then have b: "(p \<longleftrightarrow> \<not> isBaseResource g) \<and>
        (p \<longrightarrow> g \<noteq> ''export.yaml'' \<and> precedes MapperReset (ImportResources g p) t)"
      unfolding t_def by (rule state_import_events)
    have "p \<longrightarrow> (\<exists>grs xs ys. fs_read_dir e f ''/'' = Inr grs \<and> grs = xs @ (g, True) # ys \<and>
        (\<forall>(n, d)\<in>set xs. n = ''export.yaml'' \<or> d))"
      using a state_root_entry [of g e opts f] unfolding t_def by auto
    with b show "(p \<longleftrightarrow> \<not> isBaseResource g) \<and>
        (p \<longrightarrow> g \<noteq> ''export.yaml'' \<and> precedes MapperReset (ImportResources g p) t \<and>
           (\<exists>grs xs ys. fs_read_dir e f ''/'' = Inr grs \<and> grs = xs @ (g, True) # ys \<and>
              (\<forall>(n, d)\<in>set xs. n = ''export.yaml'' \<or> d)))"
      by blast
  qed
  have c8: "fst (import_state e opts f) = None \<longrightarrow>
      count_list t MapperReset = 1 \<and>
      (\<exists>grs. fs_read_dir e f ''/'' = Inr grs \<and>
         (\<forall>(g, d)\<in>set grs. g \<noteq> ''export.yaml'' \<and> \<not> isBaseResource g \<longrightarrow>
            ImportResources g True \<in> set t))"
    unfolding t_def using state_success [of e opts f] by blast
  have st: "stops_at_failure (call_failed e opts f) (import_state e opts f)"
    by (rule state_stops)
  then have c9: "\<forall>ev\<in>set (butlast t). \<not> call_failed e opts f ev"
    and c10: "fst (import_state e opts f) = None \<longrightarrow> (\<forall>ev\<in>set t. \<not> call_failed e opts f ev)"
    unfolding t_def by (simp_all add: stops_at_failure_def)
  have c11: "\<forall>grs name. fs_read_dir e f ''/'' = Inr grs \<and> (name, False) \<in> set grs \<and>
      name \<noteq> ''export.yaml'' \<longrightarrow>
      fst (import_state e opts f) \<noteq> None \<and> (\<forall>c m. ModifyResources c m \<notin> set t)"
    unfolding t_def using state_unexpected [of e f _ _ opts] by blast
  from c1 c2 c3 c4 c5 c6 c7 c8 c9 c10 c11 show ?thesis by blast
qed

text \<open>
  C2, as the code has it. In every run of \<open>Import\<close>, with \<open>f\<close> the file system the run
  leaves in the importer:
  no condition wait begins before every base group has been imported with
  \<open>pause=false\<close>, and when a wait begins every one of these imports has succeeded;
  the mapper is reset at most once, and it is reset exactly when the archive was read
  (or the store was there), every base import succeeded and each of the seven condition
  waits succeeded, after all seven waits;
  a group is imported with \<open>pause=true\<close> only after the reset, and only if it is a
  directory entry of the root of \<open>f\<close> that is neither \<open>export.yaml\<close> nor a base group
  and that no unexpected file precedes, while base groups are the only ones imported
  with \<open>pause=false\<close>;
  in a run that returns no error the mapper is reset exactly once and every entry of the
  root other than \<open>export.yaml\<close> and the base groups is imported with \<open>pause=true\<close>;
  a call that fails is the last call of its run, and a run that returns no error has
  no failed call;
  and when the root holds a file other than \<open>export.yaml\<close>, the run returns an error and
  never calls the category modifier.
\<close>

theorem import_phase_order:
  assumes run: "Import e im = (r, tr, im')"
  shows "\<exists>f. fs im' = Some f \<and>
         (\<forall>g\<in>set baseResources. \<forall>gk cs.
            precedes (ImportResources g False) (WaitForConditions gk cs) tr) \<and>
         ((\<exists>gk cs. WaitForConditions gk cs \<in> set tr) \<longrightarrow>
            (\<forall>g\<in>set baseResources. \<not> isl (import_resources e f g False))) \<and>
         count_list tr MapperReset \<le> 1 \<and>
         (MapperReset \<in> set tr \<longleftrightarrow>
            (fs im = None \<longrightarrow> fst (unarchive e (options im) (new_mem_fs e)) = None) \<and>
            (\<forall>g\<in>set baseResources. \<not> isl (import_resources e f g False)) \<and>
            (\<forall>(gk, cs)\<in>set condition_waits.
               fst (waitForConditions (wait_world e gk) gk cs) = None)) \<and>
         (MapperReset \<in> set tr \<longrightarrow>
            (\<forall>(gk, cs)\<in>set condition_waits. precedes (WaitForConditions gk cs) MapperReset tr)) \<and>
         ((\<forall>(gk, cs)\<in>set condition_waits.
             WaitForConditions gk cs \<in> set tr \<and>
             fst (waitForConditions (wait_world e gk) gk cs) = None) \<longrightarrow>
            count_list tr MapperReset = 1) \<and>
         (\<forall>g p. ImportResources g p \<in> set tr \<longrightarrow>
            (p \<longleftrightarrow> \<not> isBaseResource g) \<and>
            (p \<longrightarrow> g \<noteq> ''export.yaml'' \<and> precedes MapperReset (ImportResources g p) tr \<and>
               (\<exists>grs xs ys. fs_read_dir e f ''/'' = Inr grs \<and> grs = xs @ (g, True) # ys \<and>
                  (\<forall>(n, d)\<in>set xs. n = ''export.yaml'' \<or> d)))) \<and>
         (r = None \<longrightarrow>
            count_list tr MapperReset = 1 \<and>
            (\<exists>grs. fs_read_dir e f ''/'' = Inr grs \<and>
               (\<forall>(g, d)\<in>set grs. g \<noteq> ''export.yaml'' \<and> \<not> isBaseResource g \<longrightarrow>
                  ImportResources g True \<in> set tr))) \<and>
         (\<forall>ev\<in>set (butlast tr). \<not> call_failed e (options im) f ev) \<and>
         (r = None \<longrightarrow> (\<forall>ev\<in>set tr. \<not> call_failed e (options im) f ev)) \<and>
         (\<forall>grs name. fs_read_dir e f ''/'' = Inr grs \<and> (name, False) \<in> set grs \<and>
            name \<noteq> ''export.yaml'' \<longrightarrow>
            r \<noteq> None \<and> (\<forall>c m. ModifyResources c m \<notin> set tr))"
  using run
proof (cases rule: Import_cases)
  case (reused f)
  have "fs im' = Some f" using reused by simp
  moreover note state_order [of e "options im" f]
  ultimately show ?thesis
    unfolding reused(2,3) using reused(1) by (intro exI [of _ f]) simp
next
  case (unarchive_failed err f)
  have w: "(xrd, [''Established'']) \<in> set condition_waits" by (simp add: condition_waits_def)
  have "fs im' = Some f" using unarchive_failed by simp
  then show ?thesis
    unfolding unarchive_failed(3,4) using unarchive_failed(1,2) w
    by (intro exI [of _ f]) auto
next
  case (unarchived f)
  have "fs im' = Some f" using unarchived by simp
  moreover have u: "\<not> call_failed e (options im) f Unarchive" using unarchived(2) by simp
  moreover note state_order [of e "options im" f]
  ultimately show ?thesis
    unfolding unarchived(3,4) using unarchived(1,2)
    by (intro exI [of _ f]) (simp del: call_failed.simps)
qed

theorem import_phase_order_witness:
  "Import demo_env demo_importer =
     (None, Unarchive # demo_trace, demo_importer\<lparr>fs := Some demo_fs\<rparr>) \<and>
   ''namespaces'' \<in> set baseResources \<and>
   precedes (ImportResources ''namespaces'' False) (WaitForConditions xrd [''Established''])
     (Unarchive # demo_trace) \<and>
   MapperReset \<in> set (Unarchive # demo_trace) \<and>
   count_list (Unarchive # demo_trace) MapperReset = 1 \<and>
   (xrd, [''Established'']) \<in> set condition_waits \<and>
   precedes (WaitForConditions xrd [''Established'']) MapperReset (Unarchive # demo_trace) \<and>
   ImportResources ''widgets.example.io'' True \<in> set (Unarchive # demo_trace) \<and>
   precedes MapperReset (ImportResources ''widgets.example.io'' True) (Unarchive # demo_trace)"
proof -
  have b: "''namespaces'' \<in> set baseResources" by (simp add: baseResources_def)
  have w: "(xrd, [''Established'']) \<in> set condition_waits" by (simp add: condition_waits_def)
  have r: "MapperReset \<in> set (Unarchive # demo_trace)" by (simp add: demo_trace_def)
  have i: "ImportResources ''widgets.example.io'' True \<in> set (Unarchive # demo_trace)"
    by (simp add: demo_trace_def)
  from import_phase_order [OF demo_Import] b w r i demo_Import show ?thesis by fastforce
qed

theorem import_phase_order_counterexample:
  "count_list (fst (snd (Import unmapped_env demo_importer))) MapperReset = 0 \<and>
   fst (snd (Import denied_env gadgets_importer)) =
     map (\<lambda>g. ImportResources g False) baseResources @
     map (\<lambda>(gk, cs). WaitForConditions gk cs) condition_waits @
     [MapperReset, ReadDir ''/'', ImportResources ''gadgets.example.io'' True] \<and>
   fs_read_dir denied_env gadgets_fs ''/'' =
     Inr [(''export.yaml'', False), (''gadgets.example.io'', True), (''widgets.example.io'', True)] \<and>
   \<not> isBaseResource ''widgets.example.io'' \<and>
   ImportResources ''widgets.example.io'' True \<notin> set (fst (snd (Import denied_env gadgets_importer)))"
proof -
  have "count_list (fst (snd (Import unmapped_env demo_importer))) MapperReset = 0"
    by (simp add: unmapped_Import count_list_absent image_iff)
  moreover have "fs_read_dir denied_env gadgets_fs ''/'' =
      Inr [(''export.yaml'', False), (''gadgets.example.io'', True), (''widgets.example.io'', True)]"
    by (simp add: denied_env_def demo_env_def gadgets_fs_def)
  moreover have "\<not> isBaseResource ''widgets.example.io''"
    by (simp add: isBaseResource_def baseResources_def)
  moreover have "ImportResources ''widgets.example.io'' True
      \<notin> set (fst (snd (Import denied_env gadgets_importer)))"
    by (simp add: denied_Import image_iff condition_waits_def)
  ultimately show ?thesis by (simp add: denied_Import)
qed

lemma state_modify_events:
  assumes "ModifyResources c m \<in> set (snd (import_state e opts f))"
  shows "ModifyResources ''composite'' unpause \<in> set (snd (import_state e opts f)) \<and>
         m = unpause \<and> c \<in> {''composite'', ''claim'', ''managed''}"
proof -
  from state_finalize [OF assms] obtain pre
    where pre: "snd (import_state e opts f) = pre @ snd (finalize e opts)"
      "\<forall>c' m'. ModifyResources c' m' \<notin> set pre"
    by blast
  with assms have "ModifyResources c m \<in> set (snd (finalize e opts))" by simp
  then have "m = unpause \<and> c \<in> {''composite'', ''claim'', ''managed''}"
    by (auto dest: finalize_events)
  moreover have "ModifyResources ''composite'' unpause \<in> set (snd (finalize e opts))"
    by (simp add: finalize_trace)
  ultimately show ?thesis using pre(1) by simp
qed

lemma state_finalize_all:
  "precedes (ModifyResources ''composite'' unpause) (ModifyResources ''claim'' unpause)
     (snd (import_state e opts f)) \<and>
   precedes (ModifyResources ''claim'' unpause) (ModifyResources ''managed'' unpause)
     (snd (import_state e opts f)) \<and>
   (ModifyResources ''claim'' unpause \<in> set (snd (import_state e opts f)) \<longleftrightarrow>
      ModifyResources ''composite'' unpause \<in> set (snd (import_state e opts f)) \<and>
      \<not> isl (modify_resources e ''composite'' unpause)) \<and>
   (ModifyResources ''managed'' unpause \<in> set (snd (import_state e opts f)) \<longleftrightarrow>
      ModifyResources ''composite'' unpause \<in> set (snd (import_state e opts f)) \<and>
      UnpauseAfterImport opts \<and> \<not> isl (modify_resources e ''composite'' unpause) \<and>
      \<not> isl (modify_resources e ''claim'' unpause)) \<and>
   (\<not> UnpauseAfterImport opts \<longrightarrow>
      ModifyResources ''managed'' unpause \<notin> set (snd (import_state e opts f))) \<and>
   (\<forall>c m. ModifyResources c m \<in> set (snd (import_state e opts f)) \<longrightarrow>
      ModifyResources ''composite'' unpause \<in> set (snd (import_state e opts f)) \<and>
      m = unpause \<and> c \<in> {''composite'', ''claim'', ''managed''})"
proof (cases "ModifyResources ''composite'' unpause \<in> set (snd (import_state e opts f))")
  case True
  from state_finalize_order [OF True] True state_modify_events [of _ _ e opts f]
  show ?thesis by blast
next
  case False
  then have none: "\<And>c m. ModifyResources c m \<notin> set (snd (import_state e opts f))"
    using state_modify_events [of _ _ e opts f] by blast
  then show ?thesis by (simp add: precedes_absent)
qed

text \<open>
  C1, as the code has it. In every run of \<open>Import\<close>: the category modifier is never
  called for \<open>claim\<close> before it has been called for \<open>composite\<close>, nor for \<open>managed\<close>
  before \<open>claim\<close>; it is called for \<open>claim\<close> exactly when it was called for
  \<open>composite\<close> (the run reached the finalize phase) and that call succeeded; it is
  called for \<open>managed\<close> exactly when the run reached the finalize phase,
  \<open>UnpauseAfterImport\<close> is set and both earlier calls succeeded. In no run, whether or
  not it reaches the finalize phase, is \<open>managed\<close> touched when the option is off, and
  every call of the category modifier is one of these three, with the mutation that
  removes the pause annotation.
\<close>

theorem finalize_order:
  assumes run: "Import e im = (r, tr, im')"
  shows "precedes (ModifyResources ''composite'' unpause) (ModifyResources ''claim'' unpause) tr \<and>
         precedes (ModifyResources ''claim'' unpause) (ModifyResources ''managed'' unpause) tr \<and>
         (ModifyResources ''claim'' unpause \<in> set tr \<longleftrightarrow>
            ModifyResources ''composite'' unpause \<in> set tr \<and>
            \<not> isl (modify_resources e ''composite'' unpause)) \<and>
         (ModifyResources ''managed'' unpause \<in> set tr \<longleftrightarrow>
            ModifyResources ''composite'' unpause \<in> set tr \<and>
            UnpauseAfterImport (options im) \<and>
            \<not> isl (modify_resources e ''composite'' unpause) \<and>
            \<not> isl (modify_resources e ''claim'' unpause)) \<and>
         (\<not> UnpauseAfterImport (options im) \<longrightarrow> ModifyResources ''managed'' unpause \<notin> set tr) \<and>
         (\<forall>c m. ModifyResources c m \<in> set tr \<longrightarrow>
            ModifyResources ''composite'' unpause \<in> set tr \<and>
            m = unpause \<and> c \<in> {''composite'', ''claim'', ''managed''})"
  using run
proof (cases rule: Import_cases)
  case (reused f)
  with state_finalize_all [of e "options im" f] show ?thesis by simp
next
  case (unarchive_failed err f)
  then show ?thesis by simp
next
  case (unarchived f)
  with state_finalize_all [of e "options im" f] show ?thesis by simp
qed

theorem finalize_order_witness:
  "Import demo_env demo_importer =
     (None, Unarchive # demo_trace, demo_importer\<lparr>fs := Some demo_fs\<rparr>) \<and>
   ModifyResources ''composite'' unpause \<in> set (Unarchive # demo_trace) \<and>
   precedes (ModifyResources ''composite'' unpause) (ModifyResources ''claim'' unpause)
     (Unarchive # demo_trace) \<and>
   ModifyResources ''managed'' unpause \<in> set (Unarchive # demo_trace) \<and>
   UnpauseAfterImport (options demo_importer)"
proof -
  have c: "ModifyResources ''composite'' unpause \<in> set (Unarchive # demo_trace)"
    by (simp add: demo_trace_def)
  have m: "ModifyResources ''managed'' unpause \<in> set (Unarchive # demo_trace)"
    by (simp add: demo_trace_def)
  from finalize_order [OF demo_Import] c m demo_Import show ?thesis by simp
qed

theorem finalize_order_counterexample:
  "ModifyResources ''composite'' unpause \<in> set (fst (snd (Import forbidden_env gadgets_importer))) \<and>
   UnpauseAfterImport (options gadgets_importer) \<and>
   ModifyResources ''managed'' unpause \<notin> set (fst (snd (Import forbidden_env gadgets_importer)))"
proof -
  have "UnpauseAfterImport (options gadgets_importer)" by (simp add: gadgets_importer_def)
  then show ?thesis
    by (simp add: forbidden_Import image_iff condition_waits_def unpause_def)
qed

end
